theory Spec2Isabelle
  imports Complex_Main "HOL-Library.Word" "HOL-Library.Multiset" "HOL-Library.Log_Nat"
begin

section \<open>The board of the Fibonacci 2048 variant (board.h)\<close>

text \<open>
  A cell is a \<open>uint32_t\<close>, a row is \<open>std::array<cell, 4>\<close> and the grid is
  \<open>std::array<row, 4>\<close>.  The fixed sizes are part of the types, so rows and boards are
  datatypes with four components.  The class also carries a 64-bit attribute \<open>attr\<close>;
  \<open>operator ==\<close> compares the grids only and no function modelled here reads or writes
  \<open>attr\<close>, so a board is modelled by its grid.
\<close>

type_synonym cell = "32 word"

datatype row = Row cell cell cell cell

datatype board = Board row row row row

text \<open>
  \<open>row[c]\<close> and \<open>row[c] = v\<close>.  Every index the source uses is below 4: the loop
  bounds, the constants, and the cursor \<open>top\<close> of \<open>slide_left\<close> wherever it is written
  (lemmas \<open>slide_cell_top\<close> and \<open>slide_cells_top\<close>).  The last component stands for
  index 3.
\<close>

fun row_get :: "row \<Rightarrow> nat \<Rightarrow> cell" where
  "row_get (Row a b c d) i = (if i = 0 then a else if i = 1 then b else if i = 2 then c else d)"

fun row_set :: "row \<Rightarrow> nat \<Rightarrow> cell \<Rightarrow> row" where
  "row_set (Row a b c d) i v =
     (if i = 0 then Row v b c d else if i = 1 then Row a v c d
      else if i = 2 then Row a b v d else Row a b c v)"

fun board_row :: "board \<Rightarrow> nat \<Rightarrow> row" where
  "board_row (Board r0 r1 r2 r3) i =
     (if i = 0 then r0 else if i = 1 then r1 else if i = 2 then r2 else r3)"

fun board_row_set :: "board \<Rightarrow> nat \<Rightarrow> row \<Rightarrow> board" where
  "board_row_set (Board r0 r1 r2 r3) i v =
     (if i = 0 then Board v r1 r2 r3 else if i = 1 then Board r0 v r2 r3
      else if i = 2 then Board r0 r1 v r3 else Board r0 r1 r2 v)"

text \<open>\<open>tile[r][c]\<close>, read and written.\<close>

definition tile :: "board \<Rightarrow> nat \<Rightarrow> nat \<Rightarrow> cell" where
  "tile b r c = row_get (board_row b r) c"

definition tile_set :: "board \<Rightarrow> nat \<Rightarrow> nat \<Rightarrow> cell \<Rightarrow> board" where
  "tile_set b r c v = board_row_set b r (row_set (board_row b r) c v)"

text \<open>\<open>operator ()(unsigned i)\<close>: the cell at the 1-d index \<open>i\<close>, \<open>tile[i / 4][i % 4]\<close>.\<close>

definition cell_at :: "board \<Rightarrow> nat \<Rightarrow> cell" where
  "cell_at b i = tile b (i div 4) (i mod 4)"

text \<open>The default constructor \<open>board()\<close> zero-initialises the grid.\<close>

definition empty_board :: board where
  "empty_board = Board (Row 0 0 0 0) (Row 0 0 0 0) (Row 0 0 0 0) (Row 0 0 0 0)"

subsection \<open>Undefined behaviour as an error value\<close>

text \<open>
  The arithmetic of \<open>slide_left\<close> is done on \<open>int\<close> (32 bits) after converting the cell,
  and \<open>fibonacci\<close> indexes a local array of 33 entries.  A signed overflow and an index
  outside the array are undefined behaviour in C++; the model returns them as errors.
\<close>

datatype error = Signed_overflow | Out_of_bounds

definition int_range :: "int \<Rightarrow> bool" where
  "int_range x \<longleftrightarrow> - (2 ^ 31) \<le> x \<and> x < 2 ^ 31"

definition fib_table :: "int list" where
  "fib_table = [0, 1, 2, 3, 5, 8, 13, 21, 34, 55, 89, 144, 233,
     377, 610, 987, 1597, 2584, 4181, 6765, 10946, 17711, 28657,
     46368, 75025, 121393, 196418, 317811, 514229, 832040, 1346269,
     2178309, 3524578]"

definition fibonacci :: "int \<Rightarrow> int option" where
  "fibonacci i = (if 0 \<le> i \<and> i < 33 then Some (fib_table ! nat i) else None)"

text \<open>
  \<open>r_fibonacci\<close>: \<open>std::find\<close> over the same array, the position of the first match
  or \<open>-1\<close>.  \<open>operator >>\<close> reads a face value into the cell and replaces it by
  \<open>r_fibonacci\<close> of it, converted back to \<open>uint32_t\<close> (\<open>read_cell\<close>).
\<close>

fun find_from :: "int list \<Rightarrow> int \<Rightarrow> int \<Rightarrow> int" where
  "find_from [] i k = - 1"
| "find_from (x # xs) i k = (if x = i then k else find_from xs i (k + 1))"

definition r_fibonacci :: "int \<Rightarrow> int" where
  "r_fibonacci i = find_from fib_table i 0"

definition read_cell :: "cell \<Rightarrow> cell" where
  "read_cell face = word_of_int (r_fibonacci (sint face))"

subsection \<open>Sliding\<close>

text \<open>
  One iteration of the inner loop of \<open>slide_left\<close>, on the state
  \<open>(row, top, hold, score)\<close>; \<open>top\<close> is written \<open>tp\<close> and the local \<open>tile\<close> is written
  \<open>tl\<close>.  \<open>int tile = row[c]\<close> converts the unsigned cell to \<open>int\<close> (\<open>sint\<close>);
  \<open>row[top++] = ...\<close> converts back (\<open>word_of_int\<close>).  \<open>std::abs(tile - hold)\<close> overflows
  when the difference leaves the range of \<open>int\<close> or is its least element.  The sum
  \<open>score\<close> stays far below \<open>2^31\<close>: a slide merges at most eight times and a reward is
  at most 3524578.
\<close>

definition slide_cell :: "nat \<Rightarrow> row \<times> nat \<times> int \<times> int \<Rightarrow> error + (row \<times> nat \<times> int \<times> int)" where
  "slide_cell c st =
     (case st of (row, tp, hold, score) \<Rightarrow>
        let tl = sint (row_get row c) in
        if tl = 0 then Inr (row, tp, hold, score)
        else
          let row1 = row_set row c 0 in
          if hold \<noteq> 0 then
            (if \<not> int_range (tl - hold) \<or> tl - hold = - (2 ^ 31) then Inl Signed_overflow
             else if \<bar>tl - hold\<bar> = 1 \<or> (tl = 1 \<and> hold = 1) then
               (if \<not> int_range (max tl hold + 1) then Inl Signed_overflow
                else case fibonacci (max tl hold + 1) of
                  None \<Rightarrow> Inl Out_of_bounds
                | Some f \<Rightarrow>
                    Inr (row_set row1 tp (word_of_int (max tl hold + 1)), tp + 1, 0, score + f))
             else Inr (row_set row1 tp (word_of_int hold), tp + 1, tl, score))
          else Inr (row1, tp, tl, score))"

text \<open>The loop \<open>for (int c = 0; c < 4; c++)\<close>, stopping at the first error.\<close>

fun slide_cells :: "nat list \<Rightarrow> row \<times> nat \<times> int \<times> int \<Rightarrow> error + (row \<times> nat \<times> int \<times> int)" where
  "slide_cells [] st = Inr st"
| "slide_cells (c # cs) st =
     (case slide_cell c st of Inl e \<Rightarrow> Inl e | Inr st' \<Rightarrow> slide_cells cs st')"

text \<open>
  The body of the outer loop for one row: \<open>top = 0, hold = 0\<close>, the scan, and
  \<open>if (hold) tile[r][top] = hold\<close>.  \<open>score\<close> is the running total of the whole slide.
\<close>

definition slide_row :: "row \<Rightarrow> int \<Rightarrow> error + (row \<times> int)" where
  "slide_row rw score =
     (case slide_cells [0, 1, 2, 3] (rw, 0, 0, score) of
        Inl e \<Rightarrow> Inl e
      | Inr (rw', tp, hold, score') \<Rightarrow>
          Inr (if hold \<noteq> 0 then row_set rw' tp (word_of_int hold) else rw', score'))"

text \<open>The loop \<open>for (int r = 0; r < 4; r++)\<close> over the rows of the board.\<close>

fun slide_rows :: "nat list \<Rightarrow> board \<times> int \<Rightarrow> error + (board \<times> int)" where
  "slide_rows [] st = Inr st"
| "slide_rows (r # rs) (b, score) =
     (case slide_row (board_row b r) score of
        Inl e \<Rightarrow> Inl e
      | Inr (rw', score') \<Rightarrow> slide_rows rs (board_row_set b r rw', score'))"

text \<open>
  \<open>slide_left\<close> returns the new board (the object is mutated in place) and the reward:
  \<open>(*this != prev) ? score : -1\<close>.
\<close>

definition slide_left :: "board \<Rightarrow> error + (board \<times> int)" where
  "slide_left b =
     (case slide_rows [0, 1, 2, 3] (b, 0) of
        Inl e \<Rightarrow> Inl e
      | Inr (b', score) \<Rightarrow> Inr (b', if b' \<noteq> b then score else - 1))"

subsection \<open>The dihedral transforms\<close>

text \<open>\<open>std::swap(tile[r1][c1], tile[r2][c2])\<close>.\<close>

definition swap_tiles :: "board \<Rightarrow> nat \<Rightarrow> nat \<Rightarrow> nat \<Rightarrow> nat \<Rightarrow> board" where
  "swap_tiles b r1 c1 r2 c2 =
     tile_set (tile_set b r1 c1 (tile b r2 c2)) r2 c2 (tile b r1 c1)"

text \<open>
  \<open>transpose\<close>: \<open>for r in 0..3, for c in r+1..3: swap(tile[r][c], tile[c][r])\<close>.
  (\<open>transpose\<close> is a constant of the list library, hence the suffix.)
\<close>

definition transpose_board :: "board \<Rightarrow> board" where
  "transpose_board b =
     fold (\<lambda>r b. fold (\<lambda>c b. swap_tiles b r c c r) [r + 1 ..< 4] b) [0, 1, 2, 3] b"

definition reflect_horizontal :: "board \<Rightarrow> board" where
  "reflect_horizontal b =
     fold (\<lambda>r b. swap_tiles (swap_tiles b r 0 r 3) r 1 r 2) [0, 1, 2, 3] b"

definition reflect_vertical :: "board \<Rightarrow> board" where
  "reflect_vertical b =
     fold (\<lambda>c b. swap_tiles (swap_tiles b 0 c 3 c) 1 c 2 c) [0, 1, 2, 3] b"

definition rotate_right :: "board \<Rightarrow> board" where
  "rotate_right b = reflect_horizontal (transpose_board b)"

definition rotate_left :: "board \<Rightarrow> board" where
  "rotate_left b = reflect_vertical (transpose_board b)"

definition reverse :: "board \<Rightarrow> board" where
  "reverse b = reflect_vertical (reflect_horizontal b)"

subsection \<open>The four directions\<close>

definition slide_right :: "board \<Rightarrow> error + (board \<times> int)" where
  "slide_right b =
     (case slide_left (reflect_horizontal b) of
        Inl e \<Rightarrow> Inl e
      | Inr (b', score) \<Rightarrow> Inr (reflect_horizontal b', score))"

definition slide_up :: "board \<Rightarrow> error + (board \<times> int)" where
  "slide_up b =
     (case slide_right (rotate_right b) of
        Inl e \<Rightarrow> Inl e
      | Inr (b', score) \<Rightarrow> Inr (rotate_left b', score))"

definition slide_down :: "board \<Rightarrow> error + (board \<times> int)" where
  "slide_down b =
     (case slide_left (rotate_right b) of
        Inl e \<Rightarrow> Inl e
      | Inr (b', score) \<Rightarrow> Inr (rotate_left b', score))"

text \<open>
  \<open>slide(unsigned opcode)\<close> switches on \<open>opcode & 0b11\<close>, which is \<open>opcode mod 4\<close>;
  the \<open>default\<close> branch cannot be reached.
\<close>

definition slide :: "nat \<Rightarrow> board \<Rightarrow> error + (board \<times> int)" where
  "slide opcode b =
     (if opcode mod 4 = 0 then slide_up b
      else if opcode mod 4 = 1 then slide_right b
      else if opcode mod 4 = 2 then slide_down b
      else slide_left b)"

subsection \<open>The monotonic heuristic\<close>

text \<open>
  The body of the innermost loops of \<open>monotonic\<close> on the state \<open>(length, max_length)\<close>;
  \<open>diff\<close> is \<open>int(x) - int(y)\<close> for two neighbouring cells.  (The difference of two
  \<open>int\<close>s is taken exactly; it can leave the 32-bit range only when a cell is
  \<open>2^31\<close> or more.)
\<close>

definition mono_step :: "int \<Rightarrow> int \<Rightarrow> int \<times> int \<Rightarrow> int \<times> int" where
  "mono_step diff direction st =
     (case st of (len, max_length) \<Rightarrow>
        if diff = direction
        then (len + 1, if len + 1 > max_length then len + 1 else max_length)
        else (1, max_length))"

text \<open>The row check starts every run with \<open>length = 1\<close>, the column check with \<open>length = 0\<close>.\<close>

definition mono_rows :: "board \<Rightarrow> int \<Rightarrow> int" where
  "mono_rows b max_length =
     fold (\<lambda>r m. fold (\<lambda>direction m.
        snd (fold (\<lambda>c. mono_step (sint (tile b r c) - sint (tile b r (c + 1))) direction)
               [0, 1, 2] (1, m))) [1, - 1] m) [0, 1, 2, 3] max_length"

definition mono_cols :: "board \<Rightarrow> int \<Rightarrow> int" where
  "mono_cols b max_length =
     fold (\<lambda>c m. fold (\<lambda>direction m.
        snd (fold (\<lambda>r. mono_step (sint (tile b r c) - sint (tile b (r + 1) c)) direction)
               [0, 1, 2] (0, m))) [1, - 1] m) [0, 1, 2, 3] max_length"

definition monotonic :: "board \<Rightarrow> int" where
  "monotonic b = mono_cols b (mono_rows b 0)"

section \<open>The n-tuple network and the TD learner (agent.h)\<close>

text \<open>
  \<open>net\<close> is a \<open>std::vector<weight>\<close>: \<open>net[k][i]\<close> is entry \<open>i\<close> of table \<open>k\<close>.  The class
  \<open>weight\<close> (weight.h) is not among the sources; a table is taken to be an array of
  \<open>float\<close> read and written by \<open>operator []\<close>, and the bank is a function from the
  table number and the index to the entry.  The index is the \<open>int\<close> that
  \<open>extract_index\<close> returns; whether it lies inside the table is the predicate
  \<open>in_table\<close>, with the sizes that \<open>init_weights\<close> allocates.  An access outside a
  table is undefined in the source and has no counterpart in the bank: what is stated
  about reads and writes of the bank is stated for boards on which every index lies
  inside its table (\<open>cells_nonneg\<close> below).

  The functions that only add, subtract and multiply weights are written for any type
  of weights with these operations, so that they can be read both with exact
  arithmetic (\<open>real\<close>) and with rounding arithmetic (\<open>float32\<close> below).
\<close>

type_synonym 'a net = "nat \<Rightarrow> int \<Rightarrow> 'a"

definition MAX_INDEX :: int where
  "MAX_INDEX = 24"

definition table_size :: "nat \<Rightarrow> int" where
  "table_size k =
     (if k = 0 \<or> k = 1 then MAX_INDEX * MAX_INDEX * MAX_INDEX * MAX_INDEX * MAX_INDEX * MAX_INDEX
      else if k = 2 \<or> k = 3 then MAX_INDEX * MAX_INDEX * MAX_INDEX * MAX_INDEX
      else 0)"

definition in_table :: "nat \<Rightarrow> int \<Rightarrow> bool" where
  "in_table k i \<longleftrightarrow> 0 \<le> i \<and> i < table_size k"

text \<open>\<open>init_weights\<close>: four tables, every entry zero.\<close>

definition init_weights :: "'a::zero net" where
  "init_weights = (\<lambda>k i. 0)"

text \<open>
  The three overloads of \<open>extract_index\<close>.  \<open>(int)after(a)\<close> converts the unsigned cell
  to \<open>int\<close> (\<open>sint\<close>); \<open>std::min\<close> then compares signed values.  The sum is taken
  exactly: for cells below \<open>2^31\<close> it stays below \<open>24^6\<close>, and for the cell
  \<open>0xFFFFFFFF\<close> it stays above \<open>- 24^6\<close>, well inside the range of \<open>int\<close>.  For other
  cells of \<open>2^31\<close> or more a product can leave the range of \<open>int\<close>, which is undefined
  in the source; the exact sum stands for the source on the boards named here only.
\<close>

definition extract_index4 :: "board \<Rightarrow> nat \<Rightarrow> nat \<Rightarrow> nat \<Rightarrow> nat \<Rightarrow> int" where
  "extract_index4 after a b c d =
     MAX_INDEX * MAX_INDEX * MAX_INDEX * min (sint (cell_at after a)) (MAX_INDEX - 1) +
     MAX_INDEX * MAX_INDEX * min (sint (cell_at after b)) (MAX_INDEX - 1) +
     MAX_INDEX * min (sint (cell_at after c)) (MAX_INDEX - 1) +
     min (sint (cell_at after d)) (MAX_INDEX - 1)"

definition extract_index5 :: "board \<Rightarrow> nat \<Rightarrow> nat \<Rightarrow> nat \<Rightarrow> nat \<Rightarrow> nat \<Rightarrow> int" where
  "extract_index5 after a b c d e =
     MAX_INDEX * MAX_INDEX * MAX_INDEX * MAX_INDEX * min (sint (cell_at after a)) (MAX_INDEX - 1) +
     MAX_INDEX * MAX_INDEX * MAX_INDEX * min (sint (cell_at after b)) (MAX_INDEX - 1) +
     MAX_INDEX * MAX_INDEX * min (sint (cell_at after c)) (MAX_INDEX - 1) +
     MAX_INDEX * min (sint (cell_at after d)) (MAX_INDEX - 1) +
     min (sint (cell_at after e)) (MAX_INDEX - 1)"

definition extract_index6 :: "board \<Rightarrow> nat \<Rightarrow> nat \<Rightarrow> nat \<Rightarrow> nat \<Rightarrow> nat \<Rightarrow> nat \<Rightarrow> int" where
  "extract_index6 after a b c d e f =
     MAX_INDEX * MAX_INDEX * MAX_INDEX * MAX_INDEX * MAX_INDEX * min (sint (cell_at after a)) (MAX_INDEX - 1) +
     MAX_INDEX * MAX_INDEX * MAX_INDEX * MAX_INDEX * min (sint (cell_at after b)) (MAX_INDEX - 1) +
     MAX_INDEX * MAX_INDEX * MAX_INDEX * min (sint (cell_at after c)) (MAX_INDEX - 1) +
     MAX_INDEX * MAX_INDEX * min (sint (cell_at after d)) (MAX_INDEX - 1) +
     MAX_INDEX * min (sint (cell_at after e)) (MAX_INDEX - 1) +
     min (sint (cell_at after f)) (MAX_INDEX - 1)"

text \<open>
  The two \<open>switch (i)\<close> statements shared by \<open>estimate_value\<close> and \<open>adjust_value\<close>:
  the rotation before the four features are read, and the one after.
\<close>

definition pre_rotate :: "nat \<Rightarrow> board \<Rightarrow> board" where
  "pre_rotate i tmp =
     (if i = 0 then tmp
      else if i = 1 then rotate_left (rotate_left tmp)
      else if i = 2 then rotate_left tmp
      else if i = 3 then rotate_right tmp
      else tmp)"

definition post_rotate :: "nat \<Rightarrow> board \<Rightarrow> board" where
  "post_rotate i tmp =
     (if i = 0 then tmp
      else if i = 1 then rotate_right (rotate_right tmp)
      else if i = 2 then rotate_right tmp
      else if i = 3 then rotate_left tmp
      else tmp)"

text \<open>
  One iteration of the loop of \<open>estimate_value\<close> on the state \<open>(value, tmp)\<close>: four
  \<open>value += net[k][...]\<close> in this order.
\<close>

definition estimate_step :: "'a::plus net \<Rightarrow> nat \<Rightarrow> 'a \<times> board \<Rightarrow> 'a \<times> board" where
  "estimate_step net i st =
     (case st of (val, tmp) \<Rightarrow>
        let tmp1 = pre_rotate i tmp;
            v0 = val + net 0 (extract_index6 tmp1 0 1 4 5 8 9);
            v1 = v0 + net 1 (extract_index6 tmp1 1 2 5 6 9 10);
            v2 = v1 + net 2 (extract_index4 tmp1 2 6 10 14);
            v3 = v2 + net 3 (extract_index4 tmp1 3 7 11 15)
        in (v3, post_rotate i tmp1))"

definition estimate_loop :: "'a::{zero,plus} net \<Rightarrow> board \<Rightarrow> 'a \<times> board" where
  "estimate_loop net after = fold (estimate_step net) [0, 1, 2, 3] (0, after)"

definition estimate_value :: "'a::{zero,plus} net \<Rightarrow> board \<Rightarrow> 'a" where
  "estimate_value net after = fst (estimate_loop net after)"

text \<open>\<open>net[k][i] += adjust\<close>.\<close>

definition net_add :: "'a::plus net \<Rightarrow> nat \<Rightarrow> int \<Rightarrow> 'a \<Rightarrow> 'a net" where
  "net_add net k i adjust = net(k := (net k)(i := net k i + adjust))"

definition adjust_step :: "'a::plus \<Rightarrow> nat \<Rightarrow> 'a net \<times> board \<Rightarrow> 'a net \<times> board" where
  "adjust_step adjust i st =
     (case st of (net, tmp) \<Rightarrow>
        let tmp1 = pre_rotate i tmp;
            n0 = net_add net 0 (extract_index6 tmp1 0 1 4 5 8 9) adjust;
            n1 = net_add n0 1 (extract_index6 tmp1 1 2 5 6 9 10) adjust;
            n2 = net_add n1 2 (extract_index4 tmp1 2 6 10 14) adjust;
            n3 = net_add n2 3 (extract_index4 tmp1 3 7 11 15) adjust
        in (n3, post_rotate i tmp1))"

text \<open>
  \<open>adjust_value\<close>: the new weights and the final value of the working copy \<open>tmp\<close>;
  \<open>alpha\<close> is a member of the player.
\<close>

definition adjust_loop :: "'a::{zero,plus,minus,times} \<Rightarrow> 'a net \<Rightarrow> board \<Rightarrow> 'a \<Rightarrow> 'a net \<times> board" where
  "adjust_loop alpha net after target =
     (let current = estimate_value net after;
          err = target - current;
          adjust = alpha * err
      in fold (adjust_step adjust) [0, 1, 2, 3] (net, after))"

definition adjust_value :: "'a::{zero,plus,minus,times} \<Rightarrow> 'a net \<Rightarrow> board \<Rightarrow> 'a \<Rightarrow> 'a net" where
  "adjust_value alpha net after target = fst (adjust_loop alpha net after target)"

section \<open>Binary32 arithmetic\<close>

text \<open>
  \<open>float\<close> is IEEE 754 binary32.  \<open>float32\<close> holds its values: the finite ones as
  rational numbers, the two infinities and NaN (the sign of a zero is not kept; it is
  not visible to \<open>+\<close>, \<open>-\<close>, \<open>*\<close> on finite values or to \<open>>=\<close>).  A sum, difference or
  product of finite values is the exact result rounded to 24 significant bits, to
  nearest, ties to even (\<open>round32\<close>, with the fixed quantum \<open>2^-149\<close> below the normal
  range), and a rounded result beyond \<open>FLT_MAX\<close> is an infinity (\<open>fl\<close>).  \<open>ilog2 x\<close> is
  the exponent \<open>\<lfloor>log\<^sub>2 x\<rfloor>\<close> of a positive \<open>x\<close>.
\<close>

definition ilog2 :: "rat \<Rightarrow> int" where
  "ilog2 x = (if 1 \<le> x then bitlen \<lfloor>x\<rfloor> - 1 else - bitlen (\<lceil>1 / x\<rceil> - 1))"

definition round_even :: "rat \<Rightarrow> int" where
  "round_even r =
     (let f = \<lfloor>r\<rfloor> in
      if r - of_int f < 1 / 2 then f
      else if 1 / 2 < r - of_int f then f + 1
      else if even f then f else f + 1)"

definition round32 :: "rat \<Rightarrow> rat" where
  "round32 x =
     (if x = 0 then 0
      else let q = 2 powi (max (ilog2 \<bar>x\<bar>) (- 126) - 23)
           in of_int (round_even (x / q)) * q)"

text \<open>\<open>std::numeric_limits<float>::max()\<close>, the largest finite binary32 number.\<close>

definition FLT_MAX :: rat where
  "FLT_MAX = (2 ^ 24 - 1) * 2 ^ 104"

datatype float32 = Float32 rat | PInf | NInf | NaN

definition fl :: "rat \<Rightarrow> float32" where
  "fl x = (let r = round32 x in if FLT_MAX < r then PInf else if r < - FLT_MAX then NInf else Float32 r)"

definition float32_neg :: "float32 \<Rightarrow> float32" where
  "float32_neg a = (case a of Float32 x \<Rightarrow> Float32 (- x) | PInf \<Rightarrow> NInf | NInf \<Rightarrow> PInf | NaN \<Rightarrow> NaN)"

instantiation float32 :: "{zero,plus,minus,times}"
begin

definition zero_float32 :: float32 where
  "zero_float32 = Float32 0"

definition plus_float32 :: "float32 \<Rightarrow> float32 \<Rightarrow> float32" where
  "plus_float32 a b =
     (case a of
        Float32 x \<Rightarrow> (case b of Float32 y \<Rightarrow> fl (x + y) | PInf \<Rightarrow> PInf | NInf \<Rightarrow> NInf | NaN \<Rightarrow> NaN)
      | PInf \<Rightarrow> (case b of Float32 y \<Rightarrow> PInf | PInf \<Rightarrow> PInf | NInf \<Rightarrow> NaN | NaN \<Rightarrow> NaN)
      | NInf \<Rightarrow> (case b of Float32 y \<Rightarrow> NInf | PInf \<Rightarrow> NaN | NInf \<Rightarrow> NInf | NaN \<Rightarrow> NaN)
      | NaN \<Rightarrow> NaN)"

definition minus_float32 :: "float32 \<Rightarrow> float32 \<Rightarrow> float32" where
  "minus_float32 a b = a + float32_neg b"

definition times_float32 :: "float32 \<Rightarrow> float32 \<Rightarrow> float32" where
  "times_float32 a b =
     (case a of
        Float32 x \<Rightarrow>
          (case b of
             Float32 y \<Rightarrow> fl (x * y)
           | PInf \<Rightarrow> (if x = 0 then NaN else if 0 < x then PInf else NInf)
           | NInf \<Rightarrow> (if x = 0 then NaN else if 0 < x then NInf else PInf)
           | NaN \<Rightarrow> NaN)
      | PInf \<Rightarrow>
          (case b of
             Float32 y \<Rightarrow> (if y = 0 then NaN else if 0 < y then PInf else NInf)
           | PInf \<Rightarrow> PInf | NInf \<Rightarrow> NInf | NaN \<Rightarrow> NaN)
      | NInf \<Rightarrow>
          (case b of
             Float32 y \<Rightarrow> (if y = 0 then NaN else if 0 < y then NInf else PInf)
           | PInf \<Rightarrow> NInf | NInf \<Rightarrow> PInf | NaN \<Rightarrow> NaN)
      | NaN \<Rightarrow> NaN)"

instance ..

end



subsection \<open>The player\<close>

text \<open>
  \<open>struct step { int reward; board after; }\<close> and the members of \<open>player\<close> that the
  learner uses; the type of the weights is a parameter.
\<close>

record step =
  reward :: int
  after :: board

record 'a player =
  net :: "'a net"
  alpha :: 'a
  history :: "step list"

text \<open>
  action.h is not among the sources.  The classes of agent.h build an action in two
  ways: \<open>action()\<close>, which \<open>agent\<close>, \<open>rndenv\<close> and \<open>dummy_player\<close> return when they have
  no move, and \<open>action::slide(op)\<close>.  The model keeps the call and its argument.
  \<open>player::take_action\<close> has one return statement, \<open>return action::slide(best_op)\<close>.
\<close>

datatype action = Action_null | Action_slide int




definition open_episode :: "'a player \<Rightarrow> 'a player" where
  "open_episode p = p\<lparr>history := []\<rparr>"

text \<open>
  The learning step is modelled on real weights: its sums and products are exact, and
  there is no infinity and no NaN.  The target that the loop of \<open>close_episode\<close>
  computes at index \<open>i\<close>:
  \<open>float target = history[i].reward + estimate_value(history[i + 1].after)\<close>.
\<close>

definition td_target :: "real net \<Rightarrow> step list \<Rightarrow> nat \<Rightarrow> real" where
  "td_target nt hist i = real_of_int (reward (hist ! i)) + estimate_value nt (after (hist ! (i + 1)))"

definition close_episode_step :: "real \<Rightarrow> step list \<Rightarrow> nat \<Rightarrow> real net \<Rightarrow> real net" where
  "close_episode_step al hist i nt = adjust_value al nt (after (hist ! i)) (td_target nt hist i)"

text \<open>
  \<open>close_episode\<close>.  The loop \<open>for (int i = history.size() - 2; i >= 0; i--)\<close> visits
  \<open>n - 2, ..., 0\<close>, the reverse of \<open>[0 ..< n - 1]\<close>; every index it reads is below
  \<open>n\<close>.
\<close>

definition close_episode :: "real player \<Rightarrow> real player" where
  "close_episode p =
     (if history p = [] then p
      else if alpha p = 0 then p
      else
        let hist = history p;
            n0 = adjust_value (alpha p) (net p) (after (hist ! (length hist - 1))) 0
        in p\<lparr>net := fold (close_episode_step (alpha p) hist) (rev [0 ..< length hist - 1]) n0\<rparr>)"

section \<open>Notions used in the statements\<close>

text \<open>
  The sixteen cells of a board in 1-d order, and the boards on which a slide stays
  inside the table of \<open>fibonacci\<close>: every cell is an index from 0 to 31, so a merge
  produces at most 32.  The spec's cell domain, 0 to 23, is included.
\<close>

definition cells :: "board \<Rightarrow> cell list" where
  "cells b = map (cell_at b) [0 ..< 16]"

definition board_ok :: "board \<Rightarrow> bool" where
  "board_ok b \<longleftrightarrow> (\<forall>c \<in> set (cells b). uint c < 32)"

text \<open>
  Line \<open>k\<close> of a board for a direction (0 up, 1 right, 2 down, 3 left), read from the
  edge that the tiles move to: a column from the top for up, a row from the right for
  right, a column from the bottom for down, a row from the left for left.
\<close>

definition line :: "nat \<Rightarrow> board \<Rightarrow> nat \<Rightarrow> row" where
  "line d b k =
     (if d mod 4 = 0 then Row (tile b 0 k) (tile b 1 k) (tile b 2 k) (tile b 3 k)
      else if d mod 4 = 1 then Row (tile b k 3) (tile b k 2) (tile b k 1) (tile b k 0)
      else if d mod 4 = 2 then Row (tile b 3 k) (tile b 2 k) (tile b 1 k) (tile b 0 k)
      else Row (tile b k 0) (tile b k 1) (tile b k 2) (tile b k 3))"

text \<open>
  The boards on which \<open>extract_index\<close> computes without overflow and stays inside the
  tables: every cell is below \<open>2^31\<close>, that is, not negative as an \<open>int\<close>.  On such a
  board the exact sums of \<open>extract_index4\<close> and \<open>extract_index6\<close> are the values of the
  source, and the bank is read and written only inside the tables (lemmas
  \<open>extract_index4_no_overflow\<close>, \<open>extract_index6_no_overflow\<close> and \<open>slots_in_table\<close>).
\<close>

definition cells_nonneg :: "board \<Rightarrow> bool" where
  "cells_nonneg b \<longleftrightarrow> (\<forall>c \<in> set (cells b). 0 \<le> sint c)"

text \<open>
  The merge rule in the words of the spec, on the tiles of a row from left to right
  (the empty cells left out): two neighbours merge iff their indices differ by 1 or
  both are 1, into the larger index plus 1; the merged tile is put out and the scan
  goes on behind it, so no tile merges twice, and a pair further left goes first.
  \<open>merge_gain\<close> is the sum of the faces of the merged tiles, and \<open>row_of\<close> fills a row
  with the tiles and then zeros.
\<close>

definition merges :: "int \<Rightarrow> int \<Rightarrow> bool" where
  "merges a b \<longleftrightarrow> \<bar>a - b\<bar> = 1 \<or> (a = 1 \<and> b = 1)"

fun merge_once :: "int list \<Rightarrow> int list" where
  "merge_once (a # b # ts) =
     (if merges a b then (max a b + 1) # merge_once ts else a # merge_once (b # ts))"
| "merge_once ts = ts"

fun merge_gain :: "int list \<Rightarrow> int" where
  "merge_gain (a # b # ts) =
     (if merges a b then fib_table ! nat (max a b + 1) + merge_gain ts else merge_gain (b # ts))"
| "merge_gain ts = 0"

definition row_of :: "int list \<Rightarrow> row" where
  "row_of ts =
     (let xs = map word_of_int ts @ [0, 0, 0, 0]
      in Row (xs ! 0) (xs ! 1) (xs ! 2) (xs ! 3))"

definition tiles :: "row \<Rightarrow> int list" where
  "tiles rw = filter (\<lambda>t. t \<noteq> 0) (map (\<lambda>c. sint (row_get rw c)) [0, 1, 2, 3])"



text \<open>
  The table entries that the loops of \<open>estimate_value\<close> and \<open>adjust_value\<close> visit, in
  the order of the visits: for each of the four orientations (identity, 180 degrees,
  90 degrees counterclockwise, 90 degrees clockwise) the four features, as pairs of
  the table number and the index.
\<close>

definition orientations :: "board \<Rightarrow> board list" where
  "orientations b = [b, rotate_left (rotate_left b), rotate_left b, rotate_right b]"

definition features :: "board \<Rightarrow> (nat \<times> int) list" where
  "features tmp =
     [(0, extract_index6 tmp 0 1 4 5 8 9), (1, extract_index6 tmp 1 2 5 6 9 10),
      (2, extract_index4 tmp 2 6 10 14), (3, extract_index4 tmp 3 7 11 15)]"

definition slots :: "board \<Rightarrow> (nat \<times> int) list" where
  "slots b = concat (map features (orientations b))"

subsection \<open>Auxiliary notions of the proofs\<close>

text \<open>Adding a start value to the score component of the result of a scan.\<close>

definition shift :: "int \<Rightarrow> error + (row \<times> nat \<times> int \<times> int) \<Rightarrow> error + (row \<times> nat \<times> int \<times> int)" where
  "shift s x = (case x of Inl e \<Rightarrow> Inl e | Inr (rw, tp, hold, g) \<Rightarrow> Inr (rw, tp, hold, s + g))"

text \<open>
  Every slide is \<open>slide_left\<close> between two transforms: \<open>to_left d\<close> puts the lines of
  direction \<open>d\<close> into the rows, \<open>from_left d\<close> puts them back.
\<close>

definition to_left :: "nat \<Rightarrow> board \<Rightarrow> board" where
  "to_left d b =
     (if d mod 4 = 0 then transpose_board b
      else if d mod 4 = 1 then reflect_horizontal b
      else if d mod 4 = 2 then rotate_right b
      else b)"

definition from_left :: "nat \<Rightarrow> board \<Rightarrow> board" where
  "from_left d b =
     (if d mod 4 = 0 then transpose_board b
      else if d mod 4 = 1 then reflect_horizontal b
      else if d mod 4 = 2 then rotate_left b
      else b)"

definition add_slot :: "'a::plus \<Rightarrow> nat \<times> int \<Rightarrow> 'a net \<Rightarrow> 'a net" where
  "add_slot adjust s nt = net_add nt (fst s) (snd s) adjust"


subsection \<open>Example data\<close>

definition example_board :: board where
  "example_board = Board (Row 1 1 2 0) (Row 0 0 0 0) (Row 2 4 0 0) (Row 0 0 3 2)"

text \<open>Scenario E of the spec.\<close>

definition alternating_board :: board where
  "alternating_board = Board (Row 1 3 1 3) (Row 3 1 3 1) (Row 1 3 1 3) (Row 3 1 3 1)"

text \<open>A board with a run of four down the first column, and one along the first row.\<close>

definition column_run_board :: board where
  "column_run_board = Board (Row 1 0 0 0) (Row 2 0 0 0) (Row 3 0 0 0) (Row 4 0 0 0)"

definition row_run_board :: board where
  "row_run_board = Board (Row 1 2 3 4) (Row 0 0 0 0) (Row 0 0 0 0) (Row 0 0 0 0)"

text \<open>
  A board read from a text in which the faces at positions 0 and 3 are 4, which is
  not a Fibonacci number.
\<close>

definition corrupt_board :: board where
  "corrupt_board = Board (Row (read_cell 4) 0 0 (read_cell 4)) (Row 0 0 0 0) (Row 0 0 0 0) (Row 0 0 0 0)"

text \<open>
  Two after-states whose 32 table entries are pairwise distinct, the two-step
  trajectory of scenario F of the spec, and a learner with zero tables and
  \<open>alpha = 0.1\<close> that holds it.
\<close>

definition example_s0 :: board where
  "example_s0 = Board (Row 1 2 3 4) (Row 5 6 7 8) (Row 9 10 11 12) (Row 13 14 15 16)"

definition example_s1 :: board where
  "example_s1 = Board (Row 2 3 4 5) (Row 6 7 8 9) (Row 10 11 12 13) (Row 14 15 16 17)"

definition two_steps :: "step list" where
  "two_steps = [\<lparr>reward = 0, after = example_s0\<rparr>, \<lparr>reward = 5, after = example_s1\<rparr>]"

definition learner :: "real player" where
  "learner = \<lparr>net = init_weights, alpha = 1 / 10, history = two_steps\<rparr>"



text \<open>
  A board and binary32 weights on which the order of the additions is visible:
  \<open>2^25\<close> is read in the identity orientation, \<open>1\<close> in the orientation rotated
  counterclockwise and \<open>- 2^25\<close> in the one rotated clockwise.
\<close>

definition rounding_board :: board where
  "rounding_board = Board (Row 1 0 0 2) (Row 0 0 0 0) (Row 0 0 0 0) (Row 0 0 0 0)"

definition rounding_net :: "float32 net" where
  "rounding_net k i =
     (if k = 0 \<and> i = 7962624 then Float32 33554432
      else if k = 0 \<and> i = 15925248 then Float32 1
      else if k = 3 \<and> i = 13826 then Float32 (- 33554432)
      else 0)"

section \<open>Facts about the board\<close>

lemma board_exhaust:
  obtains a0 a1 a2 a3 b0 b1 b2 b3 c0 c1 c2 c3 d0 d1 d2 d3 where
    "b = Board (Row a0 a1 a2 a3) (Row b0 b1 b2 b3) (Row c0 c1 c2 c3) (Row d0 d1 d2 d3)"
proof (cases b)
  case (Board r0 r1 r2 r3)
  then show ?thesis
    using that by (cases r0; cases r1; cases r2; cases r3) simp
qed

lemma transpose_board_Board:
  "transpose_board (Board (Row a0 a1 a2 a3) (Row b0 b1 b2 b3) (Row c0 c1 c2 c3) (Row d0 d1 d2 d3)) =
     Board (Row a0 b0 c0 d0) (Row a1 b1 c1 d1) (Row a2 b2 c2 d2) (Row a3 b3 c3 d3)"
  by (simp add: transpose_board_def swap_tiles_def tile_set_def tile_def upt_rec [of _ 4] )

lemma reflect_horizontal_Board:
  "reflect_horizontal (Board (Row a0 a1 a2 a3) (Row b0 b1 b2 b3) (Row c0 c1 c2 c3) (Row d0 d1 d2 d3)) =
     Board (Row a3 a2 a1 a0) (Row b3 b2 b1 b0) (Row c3 c2 c1 c0) (Row d3 d2 d1 d0)"
  by (simp add: reflect_horizontal_def swap_tiles_def tile_set_def tile_def)

lemma reflect_vertical_Board:
  "reflect_vertical (Board (Row a0 a1 a2 a3) (Row b0 b1 b2 b3) (Row c0 c1 c2 c3) (Row d0 d1 d2 d3)) =
     Board (Row d0 d1 d2 d3) (Row c0 c1 c2 c3) (Row b0 b1 b2 b3) (Row a0 a1 a2 a3)"
  by (simp add: reflect_vertical_def swap_tiles_def tile_set_def tile_def)

lemma rotate_right_Board:
  "rotate_right (Board (Row a0 a1 a2 a3) (Row b0 b1 b2 b3) (Row c0 c1 c2 c3) (Row d0 d1 d2 d3)) =
     Board (Row d0 c0 b0 a0) (Row d1 c1 b1 a1) (Row d2 c2 b2 a2) (Row d3 c3 b3 a3)"
  by (simp add: rotate_right_def transpose_board_Board reflect_horizontal_Board)

lemma rotate_left_Board:
  "rotate_left (Board (Row a0 a1 a2 a3) (Row b0 b1 b2 b3) (Row c0 c1 c2 c3) (Row d0 d1 d2 d3)) =
     Board (Row a3 b3 c3 d3) (Row a2 b2 c2 d2) (Row a1 b1 c1 d1) (Row a0 b0 c0 d0)"
  by (simp add: rotate_left_def transpose_board_Board reflect_vertical_Board)

lemmas transform_Board = transpose_board_Board reflect_horizontal_Board reflect_vertical_Board
  rotate_right_Board rotate_left_Board

lemma rotate_left_right: "rotate_left (rotate_right b) = b"
  by (rule board_exhaust [of b]) (simp add: transform_Board)

lemma rotate_right_left: "rotate_right (rotate_left b) = b"
  by (rule board_exhaust [of b]) (simp add: transform_Board)

lemma rotate_left_4:
  "rotate_left (rotate_left (rotate_left (rotate_left b))) = b"
  by (rule board_exhaust [of b]) (simp add: transform_Board)

lemma rotate_right_eq: "rotate_right b = rotate_left (rotate_left (rotate_left b))"
  by (rule board_exhaust [of b]) (simp add: transform_Board)

lemma post_pre_rotate: "post_rotate i (pre_rotate i b) = b"
  by (simp add: post_rotate_def pre_rotate_def rotate_left_right rotate_right_left)

lemma cells_Board:
  "cells (Board (Row a0 a1 a2 a3) (Row b0 b1 b2 b3) (Row c0 c1 c2 c3) (Row d0 d1 d2 d3)) =
     [a0, a1, a2, a3, b0, b1, b2, b3, c0, c1, c2, c3, d0, d1, d2, d3]"
  by (simp add: cells_def cell_at_def tile_def upt_rec [of _ 16] upt_rec [of _ "Suc _"])

subsection \<open>Cells as signed integers\<close>

lemma sint_small: "sint w = uint w" if "uint (w :: cell) < 2 ^ 31"
proof -
  have "- (2 ^ 31) \<le> (0::int)" by simp
  also have "0 \<le> uint w" by simp
  finally have "- (2 ^ 31) \<le> uint w" .
  then have "signed_take_bit 31 (uint w) = uint w"
    using that by (intro signed_take_bit_int_eq_self) 
  then show ?thesis by (simp add: sint_uint)
qed

lemma sint_word_of_int_32: "- (2 ^ 31) \<le> x \<Longrightarrow> x < 2 ^ 31 \<Longrightarrow> sint (word_of_int x :: cell) = x"
  by (simp add: signed_of_int signed_take_bit_int_eq_self)

lemma sint_of_nat_32: "x < 2 ^ 31 \<Longrightarrow> sint (of_nat x :: cell) = int x"
  using sint_word_of_int_32 [of "int x"] by simp

lemma row_get_row_set:
  "i < 4 \<Longrightarrow> j < 4 \<Longrightarrow> row_get (row_set rw i v) j = (if i = j then v else row_get rw j)"
  by (cases rw) auto

subsection \<open>The scan of one row\<close>

lemma slide_cell_top:
  assumes "slide_cell c (rw, tp, hold, s) = Inr (rw', tp', hold', s')"
    and "tp \<le> c" "hold \<noteq> 0 \<longrightarrow> tp < c"
  shows "tp' \<le> c + 1 \<and> (hold' \<noteq> 0 \<longrightarrow> tp' < c + 1)"
  using assms
  by (auto simp: slide_cell_def Let_def split: if_splits option.splits)

lemma slide_cells_top:
  assumes "slide_cells [0, 1, 2, 3] (rw, 0, 0, s) = Inr (rw', tp', hold', s')"
  shows "hold' \<noteq> 0 \<longrightarrow> tp' < 4"
proof -
  from assms obtain rw1 tp1 h1 s1 rw2 tp2 h2 s2 rw3 tp3 h3 s3 where
    1: "slide_cell 0 (rw, 0, 0, s) = Inr (rw1, tp1, h1, s1)" and
    2: "slide_cell 1 (rw1, tp1, h1, s1) = Inr (rw2, tp2, h2, s2)" and
    3: "slide_cell 2 (rw2, tp2, h2, s2) = Inr (rw3, tp3, h3, s3)" and
    4: "slide_cell 3 (rw3, tp3, h3, s3) = Inr (rw', tp', hold', s')"
    by (auto split: sum.splits)
  have i1: "tp1 \<le> 1 \<and> (h1 \<noteq> 0 \<longrightarrow> tp1 < 1)"
    using slide_cell_top [OF 1] by arith
  have i2: "tp2 \<le> 2 \<and> (h2 \<noteq> 0 \<longrightarrow> tp2 < 2)"
    using slide_cell_top [OF 2] i1 by arith
  have i3: "tp3 \<le> 3 \<and> (h3 \<noteq> 0 \<longrightarrow> tp3 < 3)"
    using slide_cell_top [OF 3] i2 by arith
  show ?thesis
    using slide_cell_top [OF 4] i3 by arith
qed

lemma fibonacci_nonneg: "fibonacci i = Some f \<Longrightarrow> 0 \<le> f"
proof -
  have "\<forall>x \<in> set fib_table. 0 \<le> x"
    by (simp add: fib_table_def)
  moreover have "length fib_table = 33"
    by (simp add: fib_table_def)
  ultimately show "fibonacci i = Some f \<Longrightarrow> 0 \<le> f"
    by (auto simp: fibonacci_def split: if_splits)
qed

lemma slide_cell_shift:
  "slide_cell c (rw, tp, hold, s) = shift s (slide_cell c (rw, tp, hold, 0))"
  by (simp add: slide_cell_def shift_def Let_def split: option.split)

lemma slide_cells_shift:
  "slide_cells cs (rw, tp, hold, s) = shift s (slide_cells cs (rw, tp, hold, 0))"
proof (induction cs arbitrary: rw tp hold s)
  case Nil
  show ?case by (simp add: shift_def)
next
  case (Cons c cs)
  show ?case
  proof (cases "slide_cell c (rw, tp, hold, 0)")
    case (Inl e)
    then show ?thesis
      using slide_cell_shift [of c rw tp hold s] by (simp add: shift_def)
  next
    case (Inr st)
    obtain rw' tp' hold' g where st: "st = (rw', tp', hold', g)"
      by (cases st)
    have "slide_cell c (rw, tp, hold, s) = Inr (rw', tp', hold', s + g)"
      using slide_cell_shift [of c rw tp hold s] Inr st by (simp add: shift_def)
    moreover have "slide_cells cs (rw', tp', hold', s + g) = shift (s + g) (slide_cells cs (rw', tp', hold', 0))"
      by (rule Cons.IH)
    moreover have "slide_cells cs (rw', tp', hold', g) = shift g (slide_cells cs (rw', tp', hold', 0))"
      by (rule Cons.IH)
    ultimately show ?thesis
      using Inr st by (simp add: shift_def split: sum.split)
  qed
qed

lemma slide_row_shift:
  "slide_row rw s = (case slide_row rw 0 of Inl e \<Rightarrow> Inl e | Inr (rw', g) \<Rightarrow> Inr (rw', s + g))"
  unfolding slide_row_def
  by (subst slide_cells_shift) (simp add: shift_def split: sum.split)

lemma slide_row_shiftD:
  "slide_row rw s = Inr (rw', s') \<Longrightarrow> slide_row rw 0 = Inr (rw', s' - s)"
  using slide_row_shift [of rw s] by (auto split: sum.splits)

lemma slide_row_shiftI:
  "slide_row rw 0 = Inr (rw', g) \<Longrightarrow> slide_row rw s = Inr (rw', s + g)"
  using slide_row_shift [of rw s] by simp

lemma slide_cell_mono:
  "slide_cell c (rw, tp, hold, s) = Inr (rw', tp', hold', s') \<Longrightarrow> s \<le> s'"
  by (auto simp: slide_cell_def Let_def split: if_splits option.splits dest: fibonacci_nonneg)

lemma slide_cells_mono:
  "slide_cells cs (rw, tp, hold, s) = Inr (rw', tp', hold', s') \<Longrightarrow> s \<le> s'"
proof (induction cs arbitrary: rw tp hold s)
  case Nil
  then show ?case by simp
next
  case (Cons c cs)
  then obtain st where 1: "slide_cell c (rw, tp, hold, s) = Inr st"
    and 2: "slide_cells cs st = Inr (rw', tp', hold', s')"
    by (auto split: sum.splits)
  obtain rw1 tp1 hold1 s1 where st: "st = (rw1, tp1, hold1, s1)"
    by (cases st)
  have "s \<le> s1" using 1 st slide_cell_mono by blast
  moreover have "s1 \<le> s'" using 2 st Cons.IH by blast
  ultimately show ?case by simp
qed

lemma slide_row_gain_nonneg: "slide_row rw 0 = Inr (rw', g) \<Longrightarrow> 0 \<le> g"
  by (auto simp: slide_row_def simp del: slide_cells.simps split: sum.splits dest: slide_cells_mono)

lemma slide_cell_ok:
  assumes "0 \<le> hold" "hold < 32" "uint (row_get rw c) < 32" "tp \<le> c" "c < 4"
  shows "\<exists>rw' tp' hold' s'. slide_cell c (rw, tp, hold, s) = Inr (rw', tp', hold', s') \<and>
     0 \<le> hold' \<and> hold' < 32 \<and> tp' \<le> c + 1 \<and>
     (\<forall>j. c < j \<longrightarrow> j < 4 \<longrightarrow> row_get rw' j = row_get rw j)"
proof -
  have "sint (row_get rw c) = uint (row_get rw c)"
    using assms(3) by (intro sint_small) simp
  then obtain x where x: "sint (row_get rw c) = x" "0 \<le> x" "x < 32"
    using assms(3) by simp
  show ?thesis
    using assms(1,2,4,5) x
    by (auto simp: slide_cell_def Let_def int_range_def fibonacci_def row_get_row_set)
qed

lemma slide_row_ok:
  assumes "uint a < 32" "uint b < 32" "uint c < 32" "uint d < 32"
  shows "\<exists>rw' g. slide_row (Row a b c d) 0 = Inr (rw', g)"
proof -
  let ?rw = "Row a b c d"
  obtain rw1 tp1 h1 s1 where 1: "slide_cell 0 (?rw, 0, 0, 0) = Inr (rw1, tp1, h1, s1)"
    and i1: "0 \<le> h1" "h1 < 32" "tp1 \<le> 1" "\<forall>j. 0 < j \<longrightarrow> j < 4 \<longrightarrow> row_get rw1 j = row_get ?rw j"
    using slide_cell_ok [of 0 ?rw 0 0 0] assms(1) by auto
  have c1: "uint (row_get rw1 1) < 32"
    using i1(4) assms(2) by simp
  obtain rw2 tp2 h2 s2 where 2: "slide_cell 1 (rw1, tp1, h1, s1) = Inr (rw2, tp2, h2, s2)"
    and i2: "0 \<le> h2" "h2 < 32" "tp2 \<le> 2" "\<forall>j. 1 < j \<longrightarrow> j < 4 \<longrightarrow> row_get rw2 j = row_get rw1 j"
    using slide_cell_ok [OF i1(1,2) c1 i1(3), of s1] by auto
  have c2: "uint (row_get rw2 2) < 32"
    using i1(4) i2(4) assms(3) by simp
  obtain rw3 tp3 h3 s3 where 3: "slide_cell 2 (rw2, tp2, h2, s2) = Inr (rw3, tp3, h3, s3)"
    and i3: "0 \<le> h3" "h3 < 32" "tp3 \<le> 3" "\<forall>j. 2 < j \<longrightarrow> j < 4 \<longrightarrow> row_get rw3 j = row_get rw2 j"
    using slide_cell_ok [OF i2(1,2) c2 i2(3), of s2] by auto
  have c3: "uint (row_get rw3 3) < 32"
    using i1(4) i2(4) i3(4) assms(4) by simp
  obtain rw4 tp4 h4 s4 where 4: "slide_cell 3 (rw3, tp3, h3, s3) = Inr (rw4, tp4, h4, s4)"
    using slide_cell_ok [OF i3(1,2) c3 i3(3), of s3] by auto
  have "slide_cells [0, 1, 2, 3] (?rw, 0, 0, 0) = Inr (rw4, tp4, h4, s4)"
    by (simp only: slide_cells.simps 1 2 3 4 sum.case)
  then show ?thesis
    by (simp add: slide_row_def del: slide_cells.simps)
qed

subsection \<open>The scan as one pass of merges\<close>

text \<open>
  On a row whose cells are at most 31 the scan returns the row and the reward that
  \<open>merge_once\<close> and \<open>merge_gain\<close> compute from the nonzero cells: the scan is unfolded
  once per cell (\<open>slide_cell_unfold\<close>) and the sixteen patterns of empty and occupied
  cells are evaluated.
\<close>

lemma cell_int:
  assumes "uint (a :: cell) < 32"
  obtains x where "sint a = x" "0 \<le> x" "x < 32" "word_of_int x = a"
proof -
  have "sint a = uint a"
    using assms by (intro sint_small) simp
  then show ?thesis
    using that [of "sint a"] assms by simp
qed

lemma merges_commute: "merges a b = merges b a"
  by (auto simp: merges_def)

lemma slide_cell_unfold_gen:
  assumes "m = merges (sint (row_get rw c)) hold" "mx = max (sint (row_get rw c)) hold"
  shows "slide_cell c (rw, tp, hold, score) =
     (if sint (row_get rw c) = 0 then Inr (rw, tp, hold, score)
      else if hold = 0 then Inr (row_set rw c 0, tp, sint (row_get rw c), score)
      else if \<not> int_range (sint (row_get rw c) - hold) \<or> sint (row_get rw c) - hold = - (2 ^ 31)
        then Inl Signed_overflow
      else if m then
        (if \<not> int_range (mx + 1) then Inl Signed_overflow
         else case fibonacci (mx + 1) of
            None \<Rightarrow> Inl Out_of_bounds
          | Some f \<Rightarrow> Inr (row_set (row_set rw c 0) tp (word_of_int (mx + 1)), tp + 1, 0, score + f))
      else Inr (row_set (row_set rw c 0) tp (word_of_int hold), tp + 1, sint (row_get rw c), score))"
  unfolding assms by (simp add: slide_cell_def Let_def merges_def)

lemmas slide_cell_unfold =
  slide_cell_unfold_gen [OF merges_commute max.commute]

lemma tile_arith:
  assumes "0 \<le> x" "x < 32" "0 \<le> h" "h < 32"
  shows "int_range (x - h)" "x - h \<noteq> - (2 ^ 31)" "int_range (max h x + 1)"
    "fibonacci (max h x + 1) = Some (fib_table ! nat (max h x + 1))"
  using assms by (auto simp: int_range_def fibonacci_def)

lemma slide_row_merge_once:
  assumes "uint a < 32" "uint b < 32" "uint c < 32" "uint d < 32"
  shows "slide_row (Row a b c d) 0 =
     Inr (row_of (merge_once (tiles (Row a b c d))), merge_gain (tiles (Row a b c d)))"
proof -
  obtain xa where a: "sint a = xa" "0 \<le> xa" "xa < 32" "word_of_int xa = a"
    using assms(1) by (rule cell_int)
  obtain xb where b: "sint b = xb" "0 \<le> xb" "xb < 32" "word_of_int xb = b"
    using assms(2) by (rule cell_int)
  obtain xc where c: "sint c = xc" "0 \<le> xc" "xc < 32" "word_of_int xc = c"
    using assms(3) by (rule cell_int)
  obtain xd where d: "sint d = xd" "0 \<le> xd" "xd < 32" "word_of_int xd = d"
    using assms(4) by (rule cell_int)
  note ar = tile_arith [OF a(2,3) a(2,3)] tile_arith [OF a(2,3) b(2,3)] tile_arith [OF a(2,3) c(2,3)] tile_arith [OF a(2,3) d(2,3)]
    tile_arith [OF b(2,3) a(2,3)] tile_arith [OF b(2,3) b(2,3)] tile_arith [OF b(2,3) c(2,3)] tile_arith [OF b(2,3) d(2,3)]
    tile_arith [OF c(2,3) a(2,3)] tile_arith [OF c(2,3) b(2,3)] tile_arith [OF c(2,3) c(2,3)] tile_arith [OF c(2,3) d(2,3)]
    tile_arith [OF d(2,3) a(2,3)] tile_arith [OF d(2,3) b(2,3)] tile_arith [OF d(2,3) c(2,3)] tile_arith [OF d(2,3) d(2,3)]
  have z: "a = 0 \<longleftrightarrow> xa = 0" "b = 0 \<longleftrightarrow> xb = 0" "c = 0 \<longleftrightarrow> xc = 0" "d = 0 \<longleftrightarrow> xd = 0"
    using a(1) b(1) c(1) d(1) by (auto simp: signed_eq_0_iff)
  have neq: "x - h \<noteq> - 2147483648" if "0 \<le> x" "h < 32" for x h :: int
    using that by simp
  note neqs = neq [OF a(2) a(3)] neq [OF a(2) b(3)] neq [OF a(2) c(3)] neq [OF a(2) d(3)]
    neq [OF b(2) a(3)] neq [OF b(2) b(3)] neq [OF b(2) c(3)] neq [OF b(2) d(3)]
    neq [OF c(2) a(3)] neq [OF c(2) b(3)] neq [OF c(2) c(3)] neq [OF c(2) d(3)]
    neq [OF d(2) a(3)] neq [OF d(2) b(3)] neq [OF d(2) c(3)] neq [OF d(2) d(3)]
  show ?thesis
    by (cases "xa = 0"; cases "xb = 0"; cases "xc = 0"; cases "xd = 0")
      (simp_all add: slide_row_def slide_cell_unfold tiles_def row_of_def
        a(1,4) b(1,4) c(1,4) d(1,4) ar neqs z)
qed

lemma length_merge_once: "length ts \<le> 2 * length (merge_once ts)"
  by (induction ts rule: merge_once.induct) auto





subsection \<open>The slide of a board\<close>

lemma slide_rows_Board:
  "slide_rows [0, 1, 2, 3] (Board r0 r1 r2 r3, s) =
     (case slide_row r0 s of Inl e \<Rightarrow> Inl e | Inr (r0', s0) \<Rightarrow>
      (case slide_row r1 s0 of Inl e \<Rightarrow> Inl e | Inr (r1', s1) \<Rightarrow>
       (case slide_row r2 s1 of Inl e \<Rightarrow> Inl e | Inr (r2', s2) \<Rightarrow>
        (case slide_row r3 s2 of Inl e \<Rightarrow> Inl e | Inr (r3', s3) \<Rightarrow>
           Inr (Board r0' r1' r2' r3', s3)))))"
  by (simp split: sum.split)

lemma slide_left_rows:
  assumes "slide_left (Board r0 r1 r2 r3) = Inr (b', r)"
  obtains r0' r1' r2' r3' g0 g1 g2 g3 where
    "b' = Board r0' r1' r2' r3'"
    "slide_row r0 0 = Inr (r0', g0)" "slide_row r1 0 = Inr (r1', g1)"
    "slide_row r2 0 = Inr (r2', g2)" "slide_row r3 0 = Inr (r3', g3)"
    "r = (if b' \<noteq> Board r0 r1 r2 r3 then g0 + g1 + g2 + g3 else - 1)"
proof -
  from assms obtain s where rows: "slide_rows [0, 1, 2, 3] (Board r0 r1 r2 r3, 0) = Inr (b', s)"
    and r: "r = (if b' \<noteq> Board r0 r1 r2 r3 then s else - 1)"
    by (auto simp: slide_left_def simp del: slide_rows.simps split: sum.splits)
  from rows obtain r0' r1' r2' r3' s0 s1 s2 where
    0: "slide_row r0 0 = Inr (r0', s0)" and 1: "slide_row r1 s0 = Inr (r1', s1)" and
    2: "slide_row r2 s1 = Inr (r2', s2)" and 3: "slide_row r3 s2 = Inr (r3', s)" and
    b': "b' = Board r0' r1' r2' r3'"
    unfolding slide_rows_Board by (auto split: sum.splits)
  show ?thesis
  proof (rule that [OF b' 0 slide_row_shiftD [OF 1] slide_row_shiftD [OF 2] slide_row_shiftD [OF 3]])
    show "r = (if b' \<noteq> Board r0 r1 r2 r3 then s0 + (s1 - s0) + (s2 - s1) + (s - s2) else - 1)"
      using r by simp
  qed
qed

lemma slide_left_rowsI:
  assumes "slide_row r0 0 = Inr (r0', g0)" "slide_row r1 0 = Inr (r1', g1)"
    "slide_row r2 0 = Inr (r2', g2)" "slide_row r3 0 = Inr (r3', g3)"
  shows "\<exists>r. slide_left (Board r0 r1 r2 r3) = Inr (Board r0' r1' r2' r3', r)"
proof -
  have "slide_rows [0, 1, 2, 3] (Board r0 r1 r2 r3, 0) = Inr (Board r0' r1' r2' r3', g0 + g1 + g2 + g3)"
    unfolding slide_rows_Board
    using assms(1) slide_row_shiftI [OF assms(2), of g0] slide_row_shiftI [OF assms(3), of "g0 + g1"]
      slide_row_shiftI [OF assms(4), of "g0 + g1 + g2"]
    by simp
  then show ?thesis
    by (simp add: slide_left_def del: slide_rows.simps)
qed

lemma slide_left_ok:
  assumes "board_ok b"
  shows "\<exists>b' r. slide_left b = Inr (b', r)"
proof (rule board_exhaust [of b])
  fix a0 a1 a2 a3 b0 b1 b2 b3 c0 c1 c2 c3 d0 d1 d2 d3
  assume b: "b = Board (Row a0 a1 a2 a3) (Row b0 b1 b2 b3) (Row c0 c1 c2 c3) (Row d0 d1 d2 d3)"
  have ok: "uint a0 < 32" "uint a1 < 32" "uint a2 < 32" "uint a3 < 32"
    "uint b0 < 32" "uint b1 < 32" "uint b2 < 32" "uint b3 < 32"
    "uint c0 < 32" "uint c1 < 32" "uint c2 < 32" "uint c3 < 32"
    "uint d0 < 32" "uint d1 < 32" "uint d2 < 32" "uint d3 < 32"
    using assms by (simp_all add: board_ok_def b cells_Board)
  obtain r0' g0 where 0: "slide_row (Row a0 a1 a2 a3) 0 = Inr (r0', g0)"
    using slide_row_ok ok(1-4) by blast
  obtain r1' g1 where 1: "slide_row (Row b0 b1 b2 b3) 0 = Inr (r1', g1)"
    using slide_row_ok ok(5-8) by blast
  obtain r2' g2 where 2: "slide_row (Row c0 c1 c2 c3) 0 = Inr (r2', g2)"
    using slide_row_ok ok(9-12) by blast
  obtain r3' g3 where 3: "slide_row (Row d0 d1 d2 d3) 0 = Inr (r3', g3)"
    using slide_row_ok ok(13-16) by blast
  show ?thesis
    using slide_left_rowsI [OF 0 1 2 3] b by blast
qed

lemma slide_left_lines:
  assumes "slide_left b1 = Inr (b2, r)"
  obtains g0 g1 g2 g3 where
    "slide_row (board_row b1 0) 0 = Inr (board_row b2 0, g0)"
    "slide_row (board_row b1 1) 0 = Inr (board_row b2 1, g1)"
    "slide_row (board_row b1 2) 0 = Inr (board_row b2 2, g2)"
    "slide_row (board_row b1 3) 0 = Inr (board_row b2 3, g3)"
    "r = (if b2 \<noteq> b1 then g0 + g1 + g2 + g3 else - 1)"
    "0 \<le> g0" "0 \<le> g1" "0 \<le> g2" "0 \<le> g3"
proof -
  obtain r0 r1 r2 r3 where b1: "b1 = Board r0 r1 r2 r3"
    by (cases b1)
  from assms [unfolded b1] obtain r0' r1' r2' r3' g0 g1 g2 g3 where
    b2: "b2 = Board r0' r1' r2' r3'" and
    rows: "slide_row r0 0 = Inr (r0', g0)" "slide_row r1 0 = Inr (r1', g1)"
      "slide_row r2 0 = Inr (r2', g2)" "slide_row r3 0 = Inr (r3', g3)" and
    r: "r = (if b2 \<noteq> Board r0 r1 r2 r3 then g0 + g1 + g2 + g3 else - 1)"
    by (rule slide_left_rows)
  show ?thesis
  proof (rule that [of g0 g1 g2 g3])
    show "r = (if b2 \<noteq> b1 then g0 + g1 + g2 + g3 else - 1)"
      using r b1 by simp
  qed (use rows b1 b2 slide_row_gain_nonneg in auto)
qed

lemma from_left_to_left: "from_left d (to_left d b) = b"
  by (rule board_exhaust [of b]) (simp add: from_left_def to_left_def transform_Board)

lemma to_left_from_left: "to_left d (from_left d b) = b"
  by (rule board_exhaust [of b]) (simp add: from_left_def to_left_def transform_Board)

lemma board_ok_to_left: "board_ok (to_left d b) = board_ok b"
  by (rule board_exhaust [of b]) (auto simp: to_left_def transform_Board board_ok_def cells_Board)

lemma board_row_to_left: "k < 4 \<Longrightarrow> board_row (to_left d b) k = line d b k"
  by (rule board_exhaust [of b]) (auto simp: to_left_def transform_Board line_def tile_def)

lemma slide_via_left:
  "slide d b = (case slide_left (to_left d b) of Inl e \<Rightarrow> Inl e | Inr (b', r) \<Rightarrow> Inr (from_left d b', r))"
proof -
  have 1: "reflect_horizontal (rotate_right b) = transpose_board b" for b
    by (rule board_exhaust [of b]) (simp add: transform_Board)
  have 2: "rotate_left (reflect_horizontal b) = transpose_board b" for b
    by (rule board_exhaust [of b]) (simp add: transform_Board)
  show ?thesis
    by (auto simp: slide_def slide_up_def slide_right_def slide_down_def to_left_def from_left_def 1 2
        split: sum.splits)
qed


lemmas slide_eval = slide_def slide_up_def slide_right_def slide_down_def slide_left_def
  transform_Board slide_row_def slide_cell_def fibonacci_def fib_table_def int_range_def


lemma board_row_merge_once:
  assumes "board_ok b" "k < 4"
  shows "slide_row (board_row b k) 0 =
    Inr (row_of (merge_once (tiles (board_row b k))), merge_gain (tiles (board_row b k)))"
proof (rule board_exhaust [of b])
  fix a0 a1 a2 a3 b0 b1 b2 b3 c0 c1 c2 c3 d0 d1 d2 d3
  assume b: "b = Board (Row a0 a1 a2 a3) (Row b0 b1 b2 b3) (Row c0 c1 c2 c3) (Row d0 d1 d2 d3)"
  have ok: "uint a0 < 32" "uint a1 < 32" "uint a2 < 32" "uint a3 < 32"
    "uint b0 < 32" "uint b1 < 32" "uint b2 < 32" "uint b3 < 32"
    "uint c0 < 32" "uint c1 < 32" "uint c2 < 32" "uint c3 < 32"
    "uint d0 < 32" "uint d1 < 32" "uint d2 < 32" "uint d3 < 32"
    using assms(1) by (simp_all add: board_ok_def b cells_Board)
  have "k = 0 \<or> k = 1 \<or> k = 2 \<or> k = 3"
    using assms(2) by arith
  then show ?thesis
    using slide_row_merge_once [OF ok(1-4)] slide_row_merge_once [OF ok(5-8)]
      slide_row_merge_once [OF ok(9-12)] slide_row_merge_once [OF ok(13-16)]
    by (auto simp: b)
qed

lemma slide_left_merge_once:
  assumes "board_ok b"
  shows "\<exists>b' r. slide 3 b = Inr (b', r) \<and>
    (\<forall>k < 4. board_row b' k = row_of (merge_once (tiles (board_row b k)))) \<and>
    r = (if b' \<noteq> b then merge_gain (tiles (board_row b 0)) + merge_gain (tiles (board_row b 1)) +
           merge_gain (tiles (board_row b 2)) + merge_gain (tiles (board_row b 3)) else - 1)"
proof -
  obtain b' r where sl: "slide_left b = Inr (b', r)"
    using assms slide_left_ok by blast
  then obtain g0 g1 g2 g3 where rows:
    "slide_row (board_row b 0) 0 = Inr (board_row b' 0, g0)"
    "slide_row (board_row b 1) 0 = Inr (board_row b' 1, g1)"
    "slide_row (board_row b 2) 0 = Inr (board_row b' 2, g2)"
    "slide_row (board_row b 3) 0 = Inr (board_row b' 3, g3)"
    and r: "r = (if b' \<noteq> b then g0 + g1 + g2 + g3 else - 1)"
    by (rule slide_left_lines)
  have m: "slide_row (board_row b k) 0 =
      Inr (row_of (merge_once (tiles (board_row b k))), merge_gain (tiles (board_row b k)))"
    if "k < 4" for k
    using assms that by (rule board_row_merge_once)
  have 0: "board_row b' 0 = row_of (merge_once (tiles (board_row b 0)))" "g0 = merge_gain (tiles (board_row b 0))"
    using rows(1) m [of 0] by simp_all
  have 1: "board_row b' 1 = row_of (merge_once (tiles (board_row b 1)))" "g1 = merge_gain (tiles (board_row b 1))"
    using rows(2) m [of 1] by simp_all
  have 2: "board_row b' 2 = row_of (merge_once (tiles (board_row b 2)))" "g2 = merge_gain (tiles (board_row b 2))"
    using rows(3) m [of 2] by simp_all
  have 3: "board_row b' 3 = row_of (merge_once (tiles (board_row b 3)))" "g3 = merge_gain (tiles (board_row b 3))"
    using rows(4) m [of 3] by simp_all
  have "board_row b' k = row_of (merge_once (tiles (board_row b k)))" if "k < 4" for k
  proof -
    have "k = 0 \<or> k = 1 \<or> k = 2 \<or> k = 3"
      using that by arith
    then show ?thesis
      using 0(1) 1(1) 2(1) 3(1) by blast
  qed
  moreover have "slide 3 b = Inr (b', r)"
    using sl by (simp add: slide_def)
  ultimately show ?thesis
    using r 0(2) 1(2) 2(2) 3(2) by blast
qed

subsection \<open>Cells below \<open>2^31\<close>\<close>

text \<open>
  The rotations keep the cells, and a slide of a board with cells of at most 31 writes
  cells between 0 and 32.
\<close>

lemma cells_nonneg_Board:
  "cells_nonneg (Board (Row a0 a1 a2 a3) (Row b0 b1 b2 b3) (Row c0 c1 c2 c3) (Row d0 d1 d2 d3)) \<longleftrightarrow>
     (\<forall>c \<in> {a0, a1, a2, a3, b0, b1, b2, b3, c0, c1, c2, c3, d0, d1, d2, d3}. 0 \<le> sint c)"
  by (simp add: cells_nonneg_def cells_Board)

lemma cells_nonneg_rotate_left: "cells_nonneg (rotate_left b) = cells_nonneg b"
  by (rule board_exhaust [of b]) (auto simp: transform_Board cells_nonneg_Board)

lemma cells_nonneg_rotate_right: "cells_nonneg (rotate_right b) = cells_nonneg b"
  by (rule board_exhaust [of b]) (auto simp: transform_Board cells_nonneg_Board)

lemma cell_at_nonneg: "cells_nonneg b \<Longrightarrow> p < 16 \<Longrightarrow> 0 \<le> sint (cell_at b p)"
  by (simp add: cells_nonneg_def cells_def)




lemma cells_nonneg_examples: "cells_nonneg example_s0" "cells_nonneg example_s1"
  by (simp_all add: example_s0_def example_s1_def cells_nonneg_Board)

section \<open>Facts about the network\<close>

lemma extract_index4_range:
  assumes "0 \<le> sint (cell_at b p0)" "0 \<le> sint (cell_at b p1)" "0 \<le> sint (cell_at b p2)"
    "0 \<le> sint (cell_at b p3)"
  shows "0 \<le> extract_index4 b p0 p1 p2 p3 \<and> extract_index4 b p0 p1 p2 p3 < 331776"
  using assms unfolding extract_index4_def MAX_INDEX_def by (simp add: min_def) 

lemma extract_index6_range:
  assumes "0 \<le> sint (cell_at b p0)" "0 \<le> sint (cell_at b p1)" "0 \<le> sint (cell_at b p2)"
    "0 \<le> sint (cell_at b p3)" "0 \<le> sint (cell_at b p4)" "0 \<le> sint (cell_at b p5)"
  shows "0 \<le> extract_index6 b p0 p1 p2 p3 p4 p5 \<and> extract_index6 b p0 p1 p2 p3 p4 p5 < 191102976"
  using assms unfolding extract_index6_def MAX_INDEX_def by (simp add: min_def)

text \<open>
  When the cells read are not negative as \<open>int\<close>, every product and partial sum of
  \<open>extract_index\<close> is inside the range of \<open>int\<close>, so that the exact sum of the model is
  the value the code computes, and the index is inside its table.
\<close>

lemma extract_index4_no_overflow:
  assumes "0 \<le> sint (cell_at b p0)" "0 \<le> sint (cell_at b p1)" "0 \<le> sint (cell_at b p2)"
    "0 \<le> sint (cell_at b p3)"
  defines "m \<equiv> \<lambda>p. min (sint (cell_at b p)) (MAX_INDEX - 1)"
  shows "int_range (MAX_INDEX * MAX_INDEX * MAX_INDEX * m p0) \<and>
         int_range (MAX_INDEX * MAX_INDEX * m p1) \<and>
         int_range (MAX_INDEX * m p2) \<and>
         int_range (MAX_INDEX * MAX_INDEX * MAX_INDEX * m p0 + MAX_INDEX * MAX_INDEX * m p1) \<and>
         int_range (MAX_INDEX * MAX_INDEX * MAX_INDEX * m p0 + MAX_INDEX * MAX_INDEX * m p1 +
           MAX_INDEX * m p2) \<and>
         int_range (extract_index4 b p0 p1 p2 p3)"
  using assms(1-4) unfolding m_def extract_index4_def MAX_INDEX_def int_range_def
  by (simp add: min_def)

lemma extract_index6_no_overflow:
  assumes "0 \<le> sint (cell_at b p0)" "0 \<le> sint (cell_at b p1)" "0 \<le> sint (cell_at b p2)"
    "0 \<le> sint (cell_at b p3)" "0 \<le> sint (cell_at b p4)" "0 \<le> sint (cell_at b p5)"
  defines "m \<equiv> \<lambda>p. min (sint (cell_at b p)) (MAX_INDEX - 1)"
  defines "M \<equiv> MAX_INDEX"
  shows "int_range (M * M * M * M * M * m p0) \<and>
         int_range (M * M * M * M * m p1) \<and>
         int_range (M * M * M * m p2) \<and>
         int_range (M * M * m p3) \<and>
         int_range (M * m p4) \<and>
         int_range (M * M * M * M * M * m p0 + M * M * M * M * m p1) \<and>
         int_range (M * M * M * M * M * m p0 + M * M * M * M * m p1 + M * M * M * m p2) \<and>
         int_range (M * M * M * M * M * m p0 + M * M * M * M * m p1 + M * M * M * m p2 +
           M * M * m p3) \<and>
         int_range (M * M * M * M * M * m p0 + M * M * M * M * m p1 + M * M * M * m p2 +
           M * M * m p3 + M * m p4) \<and>
         int_range (extract_index6 b p0 p1 p2 p3 p4 p5)"
  using assms(1-6) unfolding m_def M_def extract_index6_def MAX_INDEX_def int_range_def
  by (simp add: min_def)

lemma features_in_table:
  assumes "cells_nonneg b"
  shows "\<forall>s \<in> set (features b). in_table (fst s) (snd s)"
  using extract_index6_range [of b 0 1 4 5 8 9] extract_index6_range [of b 1 2 5 6 9 10]
    extract_index4_range [of b 2 6 10 14] extract_index4_range [of b 3 7 11 15]
    cell_at_nonneg [OF assms]
  by (simp add: features_def in_table_def table_size_def MAX_INDEX_def)

subsection \<open>The loops as folds over the visited entries\<close>

lemma estimate_step_features:
  "estimate_step nt i (v, b) =
     (foldl (+) v (map (\<lambda>(k, i). nt k i) (features (pre_rotate i b))), b)"
  by (simp add: estimate_step_def features_def Let_def post_pre_rotate)

lemma orientations_pre_rotate: "orientations b = map (\<lambda>i. pre_rotate i b) [0, 1, 2, 3]"
  by (simp add: orientations_def pre_rotate_def)

lemma estimate_loop_slots:
  "estimate_loop nt b = (foldl (+) 0 (map (\<lambda>(k, i). nt k i) (slots b)), b)"
  by (simp add: estimate_loop_def estimate_step_features slots_def orientations_pre_rotate)

lemma estimate_value_slots:
  "estimate_value nt b = foldl (+) 0 (map (\<lambda>(k, i). nt k i) (slots b))"
  by (simp add: estimate_value_def estimate_loop_slots)

lemma adjust_step_features:
  "adjust_step adjust i (nt, b) = (fold (add_slot adjust) (features (pre_rotate i b)) nt, b)"
  by (simp add: adjust_step_def features_def Let_def post_pre_rotate add_slot_def)

lemma adjust_fold_slots:
  "fold (adjust_step adjust) [0, 1, 2, 3] (nt, b) = (fold (add_slot adjust) (slots b) nt, b)"
  by (simp add: adjust_step_features slots_def orientations_pre_rotate)

lemma fold_add_slot:
  "fold (add_slot adjust) xs nt k i = ((\<lambda>w. w + adjust) ^^ count_list xs (k, i)) (nt k i)"
proof (induction xs arbitrary: nt)
  case Nil
  show ?case by simp
next
  case (Cons x xs)
  show ?case
  proof (cases "x = (k, i)")
    case True
    then have "add_slot adjust x nt k i = nt k i + adjust"
      by (simp add: add_slot_def net_add_def)
    moreover have "((\<lambda>w. w + adjust) ^^ n) (y + adjust) = ((\<lambda>w. w + adjust) ^^ n) y + adjust" for n y
      using funpow_swap1 [of "\<lambda>w. w + adjust" n y] by simp
    ultimately show ?thesis
      using True by (simp add: Cons.IH)
  next
    case False
    then have "add_slot adjust x nt k i = nt k i"
      by (cases x) (auto simp: add_slot_def net_add_def)
    with False show ?thesis
      by (simp add: Cons.IH)
  qed
qed

lemma adjust_value_funpow:
  fixes nt :: "'a::{zero,plus,minus,times} net"
  shows "adjust_value al nt b t k i =
     ((\<lambda>w. w + al * (t - estimate_value nt b)) ^^ count_list (slots b) (k, i)) (nt k i)"
proof -
  have "adjust_loop al nt b t =
      (fold (add_slot (al * (t - estimate_value nt b))) (slots b) nt, b)"
    by (simp only: adjust_loop_def Let_def adjust_fold_slots)
  then show ?thesis
    by (simp add: adjust_value_def fold_add_slot)
qed

lemma length_slots: "length (slots b) = 16"
  by (simp add: slots_def orientations_def features_def)

lemmas slots_eval = slots_def orientations_def features_def transform_Board
  extract_index4_def extract_index6_def cell_at_def tile_def MAX_INDEX_def

lemma s0_distinct: "distinct (slots example_s0 @ slots example_s1)"
  by (simp add: example_s0_def example_s1_def slots_eval)

lemma slots_in_table:
  assumes "cells_nonneg b"
  shows "\<forall>s \<in> set (slots b). in_table (fst s) (snd s)"
proof -
  have "cells_nonneg (rotate_left b)" "cells_nonneg (rotate_left (rotate_left b))"
    "cells_nonneg (rotate_right b)"
    using assms by (simp_all add: cells_nonneg_rotate_left cells_nonneg_rotate_right)
  then show ?thesis
    using assms features_in_table by (auto simp: slots_def orientations_def)
qed

subsection \<open>Exact arithmetic\<close>

lemma foldl_plus_sum_list:
  fixes a :: "'a::monoid_add"
  shows "foldl (+) a xs = a + sum_list xs"
  by (induction xs arbitrary: a) (simp_all add: add.assoc)

lemma estimate_value_sum_list:
  fixes nt :: "'a::monoid_add net"
  shows "estimate_value nt b = sum_list (map (\<lambda>(k, i). nt k i) (slots b))"
  by (simp add: estimate_value_slots foldl_plus_sum_list)

lemma mset_slots_rot180: "mset (slots (rotate_left (rotate_left b))) = mset (slots b)"
  by (simp add: slots_def orientations_def rotate_right_eq rotate_left_4 ac_simps)

lemma distinct_count_list_1: "distinct xs \<Longrightarrow> x \<in> set xs \<Longrightarrow> count_list xs x = 1"
  by (induction xs) auto

lemma funpow_add_real: "((\<lambda>w. w + d) ^^ n) (x::real) = x + real n * d"
  by (induction n) (simp_all add: algebra_simps)

lemma adjust_value_real:
  fixes nt :: "real net"
  shows "adjust_value al nt b t k i =
     nt k i + real (count_list (slots b) (k, i)) * (al * (t - estimate_value nt b))"
proof -
  have 1: "adjust_loop al nt b t =
      (fold (add_slot (al * (t - estimate_value nt b))) (slots b) nt, b)"
    by (simp only: adjust_loop_def Let_def adjust_fold_slots)
  show ?thesis
    by (simp add: adjust_value_def 1 fold_add_slot funpow_add_real)
qed

lemma estimate_value_init: "estimate_value (init_weights :: real net) b = 0"
  by (simp add: estimate_value_sum_list init_weights_def slots_def orientations_def features_def)

lemma adjust_value_zero_target: "adjust_value al (init_weights :: real net) b 0 = init_weights"
proof (intro ext)
  fix k i
  have "adjust_value al (init_weights :: real net) b 0 k i = init_weights k i"
    by (simp add: adjust_value_real estimate_value_init)
  then show "adjust_value al (init_weights :: real net) b 0 k i = init_weights k i" .
qed

lemma estimate_value_adjust_distinct:
  fixes nt :: "real net"
  assumes "distinct (slots b)"
  shows "estimate_value (adjust_value al nt b t) b =
     estimate_value nt b + 16 * (al * (t - estimate_value nt b))"
proof -
  let ?d = "al * (t - estimate_value nt b)"
  have eq: "map (\<lambda>(k, i). adjust_value al nt b t k i) (slots b) = map (\<lambda>(k, i). nt k i + ?d) (slots b)"
  proof (rule map_cong [OF refl])
    fix s assume "s \<in> set (slots b)"
    then have "count_list (slots b) s = 1"
      using assms by (simp add: distinct_count_list_1)
    then show "(case s of (k, i) \<Rightarrow> adjust_value al nt b t k i) = (case s of (k, i) \<Rightarrow> nt k i + ?d)"
      by (cases s) (simp add: adjust_value_real)
  qed
  have sum: "sum_list (map (\<lambda>(k, i). nt k i + ?d) xs) =
      sum_list (map (\<lambda>(k, i). nt k i) xs) + real (length xs) * ?d" for xs
    by (induction xs) (auto simp: algebra_simps)
  have "estimate_value (adjust_value al nt b t) b =
      sum_list (map (\<lambda>(k, i). adjust_value al nt b t k i) (slots b))"
    by (rule estimate_value_sum_list)
  also have "\<dots> = sum_list (map (\<lambda>(k, i). nt k i + ?d) (slots b))"
    by (simp only: eq)
  also have "\<dots> = sum_list (map (\<lambda>(k, i). nt k i) (slots b)) + real (length (slots b)) * ?d"
    by (rule sum)
  also have "\<dots> = estimate_value nt b + 16 * ?d"
    by (simp add: estimate_value_sum_list length_slots)
  finally show ?thesis .
qed

lemma close_episode_two_steps:
  "net (close_episode \<lparr>net = nt, alpha = al, history = [st0, st1]\<rparr>) =
     (if al = 0 then nt
      else let n0 = adjust_value al nt (after st1) 0
           in adjust_value al n0 (after st0) (real_of_int (reward st0) + estimate_value n0 (after st1)))"
  by (simp add: close_episode_def close_episode_step_def td_target_def Let_def)

subsection \<open>Binary32 arithmetic\<close>

text \<open>
  The update of scenario F gives the same value with binary32 rounding as with exact
  arithmetic: \<open>0.1f * 5\<close> rounds to \<open>0.5\<close>, and the sixteen sums are exact.
\<close>

lemma float32_plus_simps:
  "Float32 0 + Float32 0 = Float32 0"
  "Float32 0 + Float32 33554432 = Float32 33554432"
  "Float32 33554432 + Float32 0 = Float32 33554432"
  "Float32 33554432 + Float32 1 = Float32 33554432"
  "Float32 33554432 + Float32 (- 33554432) = Float32 0"
  "Float32 0 + Float32 1 = Float32 1"
  "Float32 1 + Float32 0 = Float32 1"
  by code_simp+

lemma float32_scenario_simps:
  "Float32 (round32 (1 / 10)) * (Float32 5 - Float32 0) = Float32 (1 / 2)"
  "Float32 0 + Float32 (1 / 2) = Float32 (1 / 2)"
  "Float32 (1 / 2) + Float32 (1 / 2) = Float32 1"
  "Float32 1 + Float32 (1 / 2) = Float32 (3 / 2)"
  "Float32 (3 / 2) + Float32 (1 / 2) = Float32 2"
  "Float32 2 + Float32 (1 / 2) = Float32 (5 / 2)"
  "Float32 (5 / 2) + Float32 (1 / 2) = Float32 3"
  "Float32 3 + Float32 (1 / 2) = Float32 (7 / 2)"
  "Float32 (7 / 2) + Float32 (1 / 2) = Float32 4"
  "Float32 4 + Float32 (1 / 2) = Float32 (9 / 2)"
  "Float32 (9 / 2) + Float32 (1 / 2) = Float32 5"
  "Float32 5 + Float32 (1 / 2) = Float32 (11 / 2)"
  "Float32 (11 / 2) + Float32 (1 / 2) = Float32 6"
  "Float32 6 + Float32 (1 / 2) = Float32 (13 / 2)"
  "Float32 (13 / 2) + Float32 (1 / 2) = Float32 7"
  "Float32 7 + Float32 (1 / 2) = Float32 (15 / 2)"
  "Float32 (15 / 2) + Float32 (1 / 2) = Float32 8"
  "Float32 0 + Float32 0 = Float32 0"
  by code_simp+

lemma estimate_value_init_float32: "estimate_value (init_weights :: float32 net) b = Float32 0"
  by (simp add: estimate_value_slots init_weights_def slots_def orientations_def features_def
      zero_float32_def float32_scenario_simps)

lemma learning_scenario_binary32:
  "estimate_value (adjust_value (Float32 (round32 (1 / 10))) init_weights example_s0 (Float32 5)) example_s0
     = Float32 8"
  apply (simp add: estimate_value_slots [of "adjust_value _ _ _ _"] adjust_value_funpow estimate_value_init_float32)
  apply (simp add: example_s0_def slots_eval init_weights_def zero_float32_def float32_scenario_simps)
  done

subsection \<open>The choice of the move\<close>













section \<open>The claims\<close>

text \<open>
  C1.  In \<open>close_episode\<close>, after the last after-state is anchored at target 0, the
  update target of step \<open>i\<close> is claimed to be the reward of step \<open>i + 1\<close> plus the value of
  the after-state of step \<open>i + 1\<close>.  The loop reads \<open>history[i].reward\<close> instead: on the
  two-step trajectory \<open>[(0, s0), (5, s1)]\<close> with zero tables and \<open>alpha = 0.1\<close> the
  weights after \<open>close_episode\<close> are those of an update of \<open>s0\<close> towards the target
  \<open>0 + value(s1) = 0\<close>, while the claimed target \<open>5 + value(s1)\<close> is 5.
\<close>

theorem close_episode_target_reads_own_reward:
  "net (close_episode learner) =
     adjust_value (1 / 10) (adjust_value (1 / 10) init_weights example_s1 0) example_s0
       (td_target (adjust_value (1 / 10) init_weights example_s1 0) two_steps 0) \<and>
   td_target (adjust_value (1 / 10) init_weights example_s1 0) two_steps 0 = 0 \<and>
   real_of_int (reward (two_steps ! 1)) +
     estimate_value (adjust_value (1 / 10) init_weights example_s1 0) (after (two_steps ! 1)) = 5"
  by (simp add: learner_def two_steps_def close_episode_two_steps adjust_value_zero_target
      estimate_value_init td_target_def)

text \<open>
  C2.  The claim: from zero tables with \<open>alpha = 0.1\<close>, after \<open>close_episode\<close> on
  \<open>[(0, s0), (5, s1)]\<close> the value of \<open>s0\<close> is 16, because \<open>delta = 0.5\<close> is added to 32
  entries.  On the code the value is 0.
\<close>

theorem learning_scenario_counterexample:
  "distinct (slots example_s0 @ slots example_s1) \<and>
   estimate_value (net (close_episode learner)) example_s0 = 0 \<and>
   estimate_value (net (close_episode learner)) example_s0 \<noteq> 16"
proof -
  have "net (close_episode learner) = adjust_value (1 / 10) init_weights example_s0 0"
    by (simp add: learner_def two_steps_def close_episode_two_steps adjust_value_zero_target
        estimate_value_init)
  then show ?thesis
    using s0_distinct by (simp add: adjust_value_zero_target estimate_value_init)
qed

text \<open>
  C2, amended.  From zero tables with \<open>alpha = 0.1\<close>, an update of \<open>s0\<close> towards the
  target 5 adds \<open>delta = 0.5\<close> to each of the 16 entries that a value query reads (four
  orientations times four tables); when the 16 entries are distinct the next query on
  \<open>s0\<close> returns 8.  This is the update that \<open>close_episode\<close> makes on a two-step
  trajectory whose two rewards are both 5.  The boards \<open>s0\<close> and \<open>s1\<close> have cells below
  \<open>2^31\<close>, so that every entry read or written is inside its table.
\<close>

theorem learning_scenario_amended:
  assumes "cells_nonneg s0" "cells_nonneg s1" "distinct (slots s0)"
  shows "estimate_value (adjust_value (1 / 10) init_weights s0 5) s0 = (8 :: real) \<and>
         (1 / 10) * (5 - estimate_value init_weights s0) = (1 / 2 :: real) \<and>
         length (slots s0) = 16 \<and>
         (\<forall>s \<in> set (slots s0). in_table (fst s) (snd s) \<and>
            adjust_value (1 / 10) init_weights s0 5 (fst s) (snd s) = (1 / 2 :: real)) \<and>
         (\<forall>s \<in> set (slots s1). in_table (fst s) (snd s)) \<and>
         estimate_value (net (close_episode \<lparr>net = init_weights, alpha = 1 / 10,
            history = [\<lparr>reward = 5, after = s0\<rparr>, \<lparr>reward = 5, after = s1\<rparr>]\<rparr>)) s0 = 8"
proof -
  have "\<forall>s \<in> set (slots s0). count_list (slots s0) s = 1"
    using assms(3) by (simp add: distinct_count_list_1)
  then have "\<forall>s \<in> set (slots s0). adjust_value (1 / 10) init_weights s0 5 (fst s) (snd s) = (1 / 2 :: real)"
    by (simp add: adjust_value_real estimate_value_init) (simp add: init_weights_def)
  then show ?thesis
    using assms(3) slots_in_table [OF assms(1)] slots_in_table [OF assms(2)]
    by (simp add: estimate_value_adjust_distinct estimate_value_init length_slots
        close_episode_two_steps adjust_value_zero_target)
qed

theorem learning_scenario_amended_witness:
  "cells_nonneg example_s0 \<and> cells_nonneg example_s1 \<and> distinct (slots example_s0) \<and>
   estimate_value (adjust_value (1 / 10) init_weights example_s0 5) example_s0 = (8 :: real) \<and>
   estimate_value (net (close_episode \<lparr>net = init_weights, alpha = 1 / 10,
      history = [\<lparr>reward = 5, after = example_s0\<rparr>, \<lparr>reward = 5, after = example_s1\<rparr>]\<rparr>))
     example_s0 = 8"
  using learning_scenario_amended [of example_s0 example_s1] s0_distinct cells_nonneg_examples
  by simp

text \<open>
  C3.  The claim: whatever \<open>uint32\<close> values the cells hold, \<open>extract_index\<close> clamps each
  cell to 23 and returns an index inside the table.  The clamp is \<open>std::min\<close> on the
  cell converted to \<open>int\<close>, so a cell of \<open>2^31\<close> or more is negative and stays below the
  clamp.  \<open>operator >>\<close> stores \<open>0xFFFFFFFF\<close> for a face that is not a Fibonacci number;
  with such cells at positions 0 and 3 both kinds of index are negative.
\<close>

theorem extract_index_negative_cell:
  "read_cell 4 = 4294967295 \<and>
   min (sint (cell_at corrupt_board 0)) (MAX_INDEX - 1) = - 1 \<and>
   extract_index6 corrupt_board 0 1 4 5 8 9 = - 7962624 \<and>
   \<not> in_table 0 (extract_index6 corrupt_board 0 1 4 5 8 9) \<and>
   extract_index4 corrupt_board 3 7 11 15 = - 13824 \<and>
   \<not> in_table 3 (extract_index4 corrupt_board 3 7 11 15)"
proof -
  have "read_cell 4 = 4294967295"
    by (simp add: read_cell_def r_fibonacci_def fib_table_def)
  then show ?thesis
    by (simp add: corrupt_board_def extract_index6_def extract_index4_def cell_at_def tile_def
        MAX_INDEX_def in_table_def)
qed

text \<open>
  C4.  The claim: for cells \<open>a, b\<close> from 1 to 23 the row \<open>[a, 0, 0, b]\<close> slides left to
  \<open>[a + 1, 0, 0, 0]\<close> with reward \<open>fib (a + 1)\<close> iff \<open>|a - b| = 1\<close> or \<open>a = b = 1\<close>.  For
  \<open>a = 2, b = 3\<close> the merged tile is 4 and the reward is \<open>fib 4 = 5\<close>.
\<close>

theorem merge_rule_counterexample:
  "slide_row (Row 2 0 0 3) 0 = Inr (Row 4 0 0 0, 5) \<and>
   slide_row (Row 2 0 0 3) 0 \<noteq> Inr (Row (2 + 1) 0 0 0, fib_table ! (2 + 1))"
  by (simp add: slide_row_def slide_cell_def fibonacci_def fib_table_def int_range_def)

text \<open>
  C4, amended.  For cells \<open>a, b\<close> from 1 to 23 the row \<open>[a, 0, 0, b]\<close> slides left to
  \<open>[max a b + 1, 0, 0, 0]\<close> with reward \<open>fib (max a b + 1)\<close> if \<open>|a - b| = 1\<close> or
  \<open>a = b = 1\<close>, and to \<open>[a, b, 0, 0]\<close> with reward 0 otherwise.
\<close>

theorem merge_rule_amended:
  assumes "0 < x" "x < 24" "0 < y" "y < 24"
  shows "slide_row (Row (of_nat x) 0 0 (of_nat y)) 0 =
     (if \<bar>int x - int y\<bar> = 1 \<or> (x = 1 \<and> y = 1)
      then Inr (Row (of_nat (max x y + 1)) 0 0 0, fib_table ! (max x y + 1))
      else Inr (Row (of_nat x) (of_nat y) 0 0, 0))"
proof -
  define X :: cell where "X = of_nat x"
  define Y :: cell where "Y = of_nat y"
  have sx: "sint X = int x" and sy: "sint Y = int y"
    using assms by (simp_all add: X_def Y_def sint_of_nat_32)
  have s0: "slide_cell 0 (Row X 0 0 Y, 0, 0, 0) = Inr (Row 0 0 0 Y, 0, int x, 0)"
    using assms sx by (simp add: slide_cell_def)
  have s1: "slide_cell 1 (Row 0 0 0 Y, 0, int x, 0) = Inr (Row 0 0 0 Y, 0, int x, 0)"
    by (simp add: slide_cell_def)
  have s2: "slide_cell 2 (Row 0 0 0 Y, 0, int x, 0) = Inr (Row 0 0 0 Y, 0, int x, 0)"
    by (simp add: slide_cell_def)
  have m: "word_of_int (max (int y) (int x) + 1) = (of_nat (max x y + 1) :: cell)"
    "nat (max (int y) (int x) + 1) = max x y + 1"
    by (auto simp: max_def nat_add_distrib)
  have m2: "max (int y) (int x) = int (max x y)" "nat (int (max x y) + 1) = Suc (max x y)"
    by (simp_all add: max_def)
  have s3: "slide_cell 3 (Row 0 0 0 Y, 0, int x, 0) =
     (if \<bar>int x - int y\<bar> = 1 \<or> (x = 1 \<and> y = 1)
      then Inr (Row (of_nat (max x y + 1)) 0 0 0, 1, 0, fib_table ! (max x y + 1))
      else Inr (Row X 0 0 0, 1, int y, 0))"
    using assms sy 
    by (auto simp: slide_cell_def int_range_def fibonacci_def m m2 X_def Let_def numeral_2_eq_2)
  have woi: "word_of_int (int y) = Y"
    by (simp add: Y_def)
  have "slide_cells [0, 1, 2, 3] (Row X 0 0 Y, 0, 0, 0) = slide_cell 3 (Row 0 0 0 Y, 0, int x, 0)"
    by (simp only: slide_cells.simps s0 s1 s2 sum.case split: sum.split) simp
  then have "slide_row (Row X 0 0 Y) 0 =
     (if \<bar>int x - int y\<bar> = 1 \<or> (x = 1 \<and> y = 1)
      then Inr (Row (of_nat (max x y + 1)) 0 0 0, fib_table ! (max x y + 1))
      else Inr (Row X Y 0 0, 0))"
    using assms woi by (simp add: slide_row_def s3)
  then show ?thesis
    by (simp only: X_def Y_def)
qed

theorem merge_rule_amended_witness:
  "(0 :: nat) < 2 \<and> (2 :: nat) < 24 \<and> (0 :: nat) < 3 \<and> (3 :: nat) < 24 \<and>
   slide_row (Row 2 0 0 3) 0 = Inr (Row 4 0 0 0, 5) \<and>
   slide_row (Row 2 0 0 4) 0 = Inr (Row 2 4 0 0, 0)"
  using merge_rule_amended [of 2 3] merge_rule_amended [of 2 4]
  by (simp add: fib_table_def)

text \<open>
  C5.  A tile merges at most once per slide.  On every row with cells of at most 31
  the scan of \<open>slide_left\<close> returns what one pass of \<open>merge_once\<close> over the nonzero
  cells returns, packed to the left, with the reward of \<open>merge_gain\<close>: the pass emits
  a merged tile and goes on with the tiles after the pair, so the merged tile is never
  compared again, and every tile of the result stands for at most two tiles of the
  row.  A slide to the left of a board does this in each of its rows.  So the row
  \<open>[1, 1, 2, 0]\<close> slides left to \<open>[2, 2, 0, 0]\<close> with reward \<open>fib 2 = 2\<close>, and the row
  \<open>[1, 1, 1, 0]\<close> to \<open>[2, 1, 0, 0]\<close> with reward 2; the same on a board whose other
  rows are empty.
\<close>

theorem double_merge_prevention:
  "(uint a < 32 \<and> uint b < 32 \<and> uint c < 32 \<and> uint d < 32 \<longrightarrow>
      slide_row (Row a b c d) 0 =
        Inr (row_of (merge_once (tiles (Row a b c d))), merge_gain (tiles (Row a b c d))) \<and>
      length (tiles (Row a b c d)) \<le> 2 * length (merge_once (tiles (Row a b c d)))) \<and>
   (board_ok bd \<longrightarrow>
      (\<exists>bd' r. slide 3 bd = Inr (bd', r) \<and>
         (\<forall>k < 4. board_row bd' k = row_of (merge_once (tiles (board_row bd k)))) \<and>
         r = (if bd' \<noteq> bd
              then merge_gain (tiles (board_row bd 0)) + merge_gain (tiles (board_row bd 1)) +
                   merge_gain (tiles (board_row bd 2)) + merge_gain (tiles (board_row bd 3))
              else - 1))) \<and>
   slide_row (Row 1 1 2 0) 0 = Inr (Row 2 2 0 0, 2) \<and>
   slide_row (Row 1 1 1 0) 0 = Inr (Row 2 1 0 0, 2) \<and>
   fibonacci 2 = Some 2 \<and>
   slide 3 (Board (Row 1 1 2 0) (Row 0 0 0 0) (Row 0 0 0 0) (Row 0 0 0 0)) =
     Inr (Board (Row 2 2 0 0) (Row 0 0 0 0) (Row 0 0 0 0) (Row 0 0 0 0), 2) \<and>
   slide 3 (Board (Row 1 1 1 0) (Row 0 0 0 0) (Row 0 0 0 0) (Row 0 0 0 0)) =
     Inr (Board (Row 2 1 0 0) (Row 0 0 0 0) (Row 0 0 0 0) (Row 0 0 0 0), 2)"
proof -
  have "slide_row (Row 1 1 2 0) 0 = Inr (Row 2 2 0 0, 2) \<and>
   slide_row (Row 1 1 1 0) 0 = Inr (Row 2 1 0 0, 2) \<and>
   fibonacci 2 = Some 2 \<and>
   slide 3 (Board (Row 1 1 2 0) (Row 0 0 0 0) (Row 0 0 0 0) (Row 0 0 0 0)) =
     Inr (Board (Row 2 2 0 0) (Row 0 0 0 0) (Row 0 0 0 0) (Row 0 0 0 0), 2) \<and>
   slide 3 (Board (Row 1 1 1 0) (Row 0 0 0 0) (Row 0 0 0 0) (Row 0 0 0 0)) =
     Inr (Board (Row 2 1 0 0) (Row 0 0 0 0) (Row 0 0 0 0) (Row 0 0 0 0), 2)"
    by (simp add: slide_row_def slide_cell_def fibonacci_def fib_table_def int_range_def
        slide_def slide_left_def)
  then show ?thesis
    using slide_row_merge_once [of a b c d] length_merge_once [of "tiles (Row a b c d)"]
      slide_left_merge_once [of bd]
    by blast
qed

theorem double_merge_prevention_witness:
  "uint (2 :: cell) < 32 \<and> uint (3 :: cell) < 32 \<and> uint (5 :: cell) < 32 \<and> uint (0 :: cell) < 32 \<and>
   tiles (Row 2 3 5 0) = [2, 3, 5] \<and> merge_once [2, 3, 5] = [4, 5] \<and>
   slide_row (Row 2 3 5 0) 0 = Inr (Row 4 5 0 0, 5) \<and>
   board_ok example_board \<and>
   slide 3 example_board = Inr (Board (Row 2 2 0 0) (Row 0 0 0 0) (Row 2 4 0 0) (Row 4 0 0 0), 7)"
proof -
  have 1: "tiles (Row 2 3 5 0) = [2, 3, 5]" "merge_once [2, 3, 5] = [4, 5]" "merge_gain [2, 3, 5] = 5"
    "row_of [4, 5] = Row 4 5 0 0"
    by (simp_all add: tiles_def merges_def row_of_def fib_table_def)
  have ok: "board_ok example_board"
    by (simp add: example_board_def board_ok_def cells_Board)
  have sl: "slide 3 example_board = Inr (Board (Row 2 2 0 0) (Row 0 0 0 0) (Row 2 4 0 0) (Row 4 0 0 0), 7)"
    by (simp add: example_board_def slide_eval)
  have u: "uint (2 :: cell) < 32 \<and> uint (3 :: cell) < 32 \<and> uint (5 :: cell) < 32 \<and> uint (0 :: cell) < 32"
    by simp
  then have "slide_row (Row 2 3 5 0) 0 =
      Inr (row_of (merge_once (tiles (Row 2 3 5 0))), merge_gain (tiles (Row 2 3 5 0)))"
    using double_merge_prevention [of 2 3 5 0 example_board] by blast
  then have "slide_row (Row 2 3 5 0) 0 = Inr (Row 4 5 0 0, 5)"
    by (simp only: 1)
  then show ?thesis
    using 1(1,2) ok sl u by blast
qed

text \<open>
  C6.  For every board and every direction, \<open>slide\<close> returns \<open>-1\<close> iff the grid is
  unchanged; otherwise it returns the sum of the merge rewards, which is not negative,
  and the board is the slid one: each line of the direction is the scan of the line
  of the old board.  On a board whose cells are all at most 31 the slide has a
  result; on any board, a result satisfies the rest.
\<close>

theorem slide_illegal_iff_unchanged:
  "(board_ok b \<longrightarrow> (\<exists>b' r. slide d b = Inr (b', r))) \<and>
   (\<forall>b' r. slide d b = Inr (b', r) \<longrightarrow>
      (r = - 1 \<longleftrightarrow> b' = b) \<and>
      (\<exists>g0 g1 g2 g3. 0 \<le> g0 \<and> 0 \<le> g1 \<and> 0 \<le> g2 \<and> 0 \<le> g3 \<and>
         slide_row (line d b 0) 0 = Inr (line d b' 0, g0) \<and>
         slide_row (line d b 1) 0 = Inr (line d b' 1, g1) \<and>
         slide_row (line d b 2) 0 = Inr (line d b' 2, g2) \<and>
         slide_row (line d b 3) 0 = Inr (line d b' 3, g3) \<and>
         (b' \<noteq> b \<longrightarrow> r = g0 + g1 + g2 + g3)))"
proof (intro conjI impI allI)
  assume "board_ok b"
  then have "board_ok (to_left d b)"
    by (simp add: board_ok_to_left)
  then obtain b2 r where "slide_left (to_left d b) = Inr (b2, r)"
    using slide_left_ok by blast
  then show "\<exists>b' r. slide d b = Inr (b', r)"
    by (simp add: slide_via_left)
next
  fix b' r
  assume "slide d b = Inr (b', r)"
  then obtain b2 where left: "slide_left (to_left d b) = Inr (b2, r)" and b': "b' = from_left d b2"
    by (auto simp: slide_via_left split: sum.splits)
  have b2: "b2 = to_left d b'"
    by (simp add: b' to_left_from_left)
  have same: "b2 \<noteq> to_left d b \<longleftrightarrow> b' \<noteq> b"
    using from_left_to_left [of d b] b' b2 by auto
  from left obtain g0 g1 g2 g3 where
    rows: "slide_row (board_row (to_left d b) 0) 0 = Inr (board_row b2 0, g0)"
      "slide_row (board_row (to_left d b) 1) 0 = Inr (board_row b2 1, g1)"
      "slide_row (board_row (to_left d b) 2) 0 = Inr (board_row b2 2, g2)"
      "slide_row (board_row (to_left d b) 3) 0 = Inr (board_row b2 3, g3)" and
    r: "r = (if b2 \<noteq> to_left d b then g0 + g1 + g2 + g3 else - 1)" and
    nonneg: "0 \<le> g0" "0 \<le> g1" "0 \<le> g2" "0 \<le> g3"
    by (rule slide_left_lines)
  show "r = - 1 \<longleftrightarrow> b' = b"
    using r same nonneg by auto
  show "\<exists>g0 g1 g2 g3. 0 \<le> g0 \<and> 0 \<le> g1 \<and> 0 \<le> g2 \<and> 0 \<le> g3 \<and>
         slide_row (line d b 0) 0 = Inr (line d b' 0, g0) \<and>
         slide_row (line d b 1) 0 = Inr (line d b' 1, g1) \<and>
         slide_row (line d b 2) 0 = Inr (line d b' 2, g2) \<and>
         slide_row (line d b 3) 0 = Inr (line d b' 3, g3) \<and>
         (b' \<noteq> b \<longrightarrow> r = g0 + g1 + g2 + g3)"
    using rows r same nonneg unfolding b2
    by (intro exI [of _ g0] exI [of _ g1] exI [of _ g2] exI [of _ g3]) (simp add: board_row_to_left)
qed

theorem slide_illegal_iff_unchanged_witness:
  "board_ok example_board \<and>
   slide 0 example_board =
     Inr (Board (Row 3 1 4 2) (Row 0 4 0 0) (Row 0 0 0 0) (Row 0 0 0 0), 8) \<and>
   ((8 :: int) = - 1 \<longleftrightarrow>
      Board (Row 3 1 4 2) (Row 0 4 0 0) (Row 0 0 0 0) (Row 0 0 0 0) = example_board) \<and>
   board_ok alternating_board \<and>
   slide 3 alternating_board = Inr (alternating_board, - 1)"
  using slide_illegal_iff_unchanged [of example_board 0]
    slide_illegal_iff_unchanged [of alternating_board 3]
  by (simp add: example_board_def alternating_board_def board_ok_def cells_Board slide_eval)

text \<open>
  C7.  The claim: \<open>monotonic\<close> returns a value from 1 to 4, the length of the longest
  run with difference 1 or -1 over a row or a column.  \<open>max_length\<close> starts at 0 and
  changes only when two neighbours differ by 1, so the empty board gives 0; the column
  check starts a run with \<open>length = 0\<close> where the row check starts with 1, so a run of
  four down a column gives 3 where the same run along a row gives 4.
\<close>

theorem monotonic_zero_and_short_column:
  "monotonic empty_board = 0 \<and> monotonic column_run_board = 3 \<and> monotonic row_run_board = 4"
  by (simp add: monotonic_def mono_rows_def mono_cols_def mono_step_def tile_def
      empty_board_def column_run_board_def row_run_board_def)

text \<open>
  C8.  The claim: \<open>value(B) == value(rotate_left(rotate_left(B)))\<close> for every board and
  every weight state.  The second query adds the same entries in another order
  (180 degrees, identity, clockwise, counterclockwise), and binary32 addition is not
  associative: with the weights \<open>2^25\<close>, \<open>1\<close> and \<open>- 2^25\<close> the first query returns 0
  and the second 1.
\<close>

theorem estimate_value_rot180_counterexample:
  "estimate_value rounding_net rounding_board = Float32 0 \<and>
   estimate_value rounding_net (rotate_left (rotate_left rounding_board)) = Float32 1 \<and>
   estimate_value rounding_net rounding_board \<noteq>
     estimate_value rounding_net (rotate_left (rotate_left rounding_board))"
  by (simp add: estimate_value_slots rounding_board_def slots_eval rounding_net_def
      zero_float32_def float32_plus_simps)

text \<open>
  C8, amended.  For every board with cells below \<open>2^31\<close> the two queries read the same
  16 entries, as a multiset, all of them inside their tables, and they return the same
  value whenever the addition of weights is associative and commutative, as it is in
  exact arithmetic.
\<close>

theorem estimate_value_rot180:
  fixes nt :: "'a::comm_monoid_add net"
  assumes "cells_nonneg b"
  shows "mset (slots (rotate_left (rotate_left b))) = mset (slots b) \<and>
         (\<forall>s \<in> set (slots b). in_table (fst s) (snd s)) \<and>
         (\<forall>s \<in> set (slots (rotate_left (rotate_left b))). in_table (fst s) (snd s)) \<and>
         estimate_value nt (rotate_left (rotate_left b)) = estimate_value nt b"
proof -
  have "sum_list (map f (slots (rotate_left (rotate_left b)))) = sum_list (map f (slots b))"
    for f :: "nat \<times> int \<Rightarrow> 'a"
    using mset_slots_rot180 [of b]
    by (metis mset_map sum_mset_sum_list)
  moreover have "cells_nonneg (rotate_left (rotate_left b))"
    using assms by (simp add: cells_nonneg_rotate_left)
  ultimately show ?thesis
    using slots_in_table [OF assms] slots_in_table [of "rotate_left (rotate_left b)"]
    by (simp add: estimate_value_sum_list mset_slots_rot180)
qed

theorem estimate_value_rot180_witness:
  "cells_nonneg rounding_board \<and>
   estimate_value (\<lambda>k i. real_of_int i) (rotate_left (rotate_left rounding_board)) =
     estimate_value (\<lambda>k i. real_of_int i) rounding_board \<and>
   mset (slots (rotate_left (rotate_left rounding_board))) = mset (slots rounding_board)"
proof -
  have "cells_nonneg rounding_board"
    by (simp add: rounding_board_def cells_nonneg_Board)
  then show ?thesis
    using estimate_value_rot180 [of rounding_board "\<lambda>k i. real_of_int i"] by simp
qed






end
